theory Spec2Isabelle
  imports Main "HOL-Library.Word"
begin

section \<open>Data model\<close>

text \<open>
  A row of the \<open>entry\<close> table, with the columns the route handlers of
  \<^verbatim>\<open>server/src/routes/entries.ts\<close> and \<^verbatim>\<open>server/src/routes/notes.ts\<close> read or write.
  The column \<^verbatim>\<open>id\<close> is called \<open>entry_id\<close> here. The timestamps \<^verbatim>\<open>createdAt\<close> and
  \<^verbatim>\<open>updatedAt\<close> are left out: no handler modelled below reads them.
\<close>

record entry =
  entry_id :: string
  title :: string
  synopsis :: string
  content :: string
  userId :: string
  categoryId :: string
  pinned :: bool
  isPublic :: bool
  publicShareId :: "string option"
  isDeleted :: bool

text \<open>The \<^verbatim>\<open>data\<close> object handed to \<^verbatim>\<open>prisma.entry.update\<close>: a column that is \<open>None\<close>
  is absent from the object and keeps its value; \<open>pt_publicShareId = Some None\<close> writes null.\<close>

record entry_patch =
  pt_title :: "string option"
  pt_synopsis :: "string option"
  pt_content :: "string option"
  pt_categoryId :: "string option"
  pt_pinned :: "bool option"
  pt_isPublic :: "bool option"
  pt_publicShareId :: "string option option"
  pt_isDeleted :: "bool option"

text \<open>The \<^verbatim>\<open>data\<close> object handed to \<^verbatim>\<open>prisma.entry.create\<close>; \<open>nw_publicShareId = None\<close>
  means that the key is absent (the spread \<^verbatim>\<open>...(isPublic ? { publicShareId } : {})\<close>).\<close>

record entry_new =
  nw_title :: string
  nw_synopsis :: string
  nw_content :: string
  nw_userId :: string
  nw_categoryId :: string
  nw_pinned :: "bool option"
  nw_isPublic :: bool
  nw_publicShareId :: "string option option"

text \<open>Every call a handler makes on the store client is logged, in order.\<close>

datatype store_call =
    EntryFindUniqueId string
  | EntryFindUniqueShareId string
  | EntryFindFirst
  | CategoryFindUnique string
  | EntryCreate string
  | EntryUpdate string
  | EntryDelete string

fun is_write :: "store_call \<Rightarrow> bool" where
  "is_write (EntryCreate _) = True"
| "is_write (EntryUpdate _) = True"
| "is_write (EntryDelete _) = True"
| "is_write _ = False"

fun is_probe :: "store_call \<Rightarrow> bool" where
  "is_probe (EntryFindUniqueShareId _) = True"
| "is_probe _ = False"

text \<open>
  The world a request runs in: the two tables, the bytes the random source
  (\<^verbatim>\<open>crypto.randomBytes\<close>) will hand out next, and the log of store calls.
\<close>

record world =
  entries :: "entry list"
  categories :: "string list"
  rng :: "nat \<Rightarrow> 8 word"
  calls :: "store_call list"

datatype exn = Error string

datatype body =
    Message string
  | ErrorBody string
  | EntryBody entry
  | NoteBody string "string option" string string string
  | GeneratedBody string "(string \<times> string option) option"

text \<open>\<open>Status c b\<close> is \<^verbatim>\<open>res.status(c).json(b)\<close> (\<^verbatim>\<open>res.json(b)\<close> is status 200);
  \<open>Next e\<close> is \<^verbatim>\<open>next(e)\<close>, the hand-over of a caught exception to the error middleware.\<close>

datatype response = Status nat body | Next exn

fun is_success :: "response \<Rightarrow> bool" where
  "is_success (Status c _) = (c = 200 \<or> c = 201)"
| "is_success (Next _) = False"

subsection \<open>JavaScript truthiness\<close>

definition truthy_str :: "string option \<Rightarrow> bool" where
  "truthy_str x = (case x of None \<Rightarrow> False | Some s \<Rightarrow> s \<noteq> [])"

definition truthy_bool :: "bool option \<Rightarrow> bool" where
  "truthy_bool x = (case x of None \<Rightarrow> False | Some b \<Rightarrow> b)"

definition nullish :: "'a option \<Rightarrow> 'a \<Rightarrow> 'a" where
  "nullish x d = (case x of None \<Rightarrow> d | Some v \<Rightarrow> v)"

section \<open>The store\<close>

text \<open>
  The handlers reach the store through a Prisma client; neither the client nor the schema
  is among the sources, so the operations the handlers call are modelled here. A lookup
  returns the first matching row and changes nothing. Uniqueness of \<open>publicShareId\<close> and
  the reference from an entry to its category are not enforced by this store; a store that
  enforces them refuses some writes that this one accepts, and so reaches no state that
  this one does not reach.
\<close>

text \<open>Every store operation appends itself to the log of calls.\<close>

definition log_call :: "store_call \<Rightarrow> world \<Rightarrow> world" where
  "log_call c w = w\<lparr>calls := calls w @ [c]\<rparr>"

text \<open>Modelled from the spec: \<^verbatim>\<open>prisma.entry.findUnique({ where: { id } })\<close>, the lookup by
  the entry's unique identifier.\<close>

definition entry_findUnique_id :: "string \<Rightarrow> world \<Rightarrow> entry option \<times> world" where
  "entry_findUnique_id i w =
     (find (\<lambda>e. entry_id e = i) (entries w), log_call (EntryFindUniqueId i) w)"

text \<open>Modelled from the spec: \<^verbatim>\<open>prisma.entry.findUnique({ where: { publicShareId } })\<close>, the
  existence check keyed by token value; a read that changes nothing.\<close>

definition entry_findUnique_publicShareId :: "string \<Rightarrow> world \<Rightarrow> entry option \<times> world" where
  "entry_findUnique_publicShareId t w =
     (find (\<lambda>e. publicShareId e = Some t) (entries w), log_call (EntryFindUniqueShareId t) w)"

text \<open>Modelled from the spec: \<^verbatim>\<open>prisma.entry.findFirst({ where })\<close>, the first row that passes
  the filter.\<close>

definition entry_findFirst :: "(entry \<Rightarrow> bool) \<Rightarrow> world \<Rightarrow> entry option \<times> world" where
  "entry_findFirst wh w = (find wh (entries w), log_call EntryFindFirst w)"

text \<open>The filters \<^verbatim>\<open>where: { id, userId }\<close> and \<^verbatim>\<open>where: { id, userId, isDeleted: false }\<close>.\<close>

definition where_id_userId :: "string \<Rightarrow> string \<Rightarrow> entry \<Rightarrow> bool" where
  "where_id_userId i u e = (entry_id e = i \<and> userId e = u)"

definition where_id_userId_live :: "string \<Rightarrow> string \<Rightarrow> entry \<Rightarrow> bool" where
  "where_id_userId_live i u e = (entry_id e = i \<and> userId e = u \<and> isDeleted e = False)"

text \<open>Modelled from the spec: \<^verbatim>\<open>prisma.category.findUnique({ where: { id } })\<close>, used by the
  handlers only as a test that the category exists.\<close>

definition category_findUnique :: "string \<Rightarrow> world \<Rightarrow> bool \<times> world" where
  "category_findUnique c w = (c \<in> set (categories w), log_call (CategoryFindUnique c) w)"

text \<open>Modelled from the spec: the errors the store raises, for an identifier that is taken
  and for an update or delete of a row that does not exist.\<close>

definition unique_violation :: exn where
  "unique_violation = Error ''Unique constraint failed on the fields: (id)''"

definition record_not_found :: exn where
  "record_not_found = Error ''Record to update or delete does not exist.''"

text \<open>Modelled from the spec: the row \<^verbatim>\<open>prisma.entry.create\<close> stores. The schema is missing: a
  column left out of the data takes its default, which is null for the optional
  \<open>publicShareId\<close> and false for \<open>pinned\<close>; \<open>isDeleted\<close> starts false.\<close>

definition new_row :: "string \<Rightarrow> entry_new \<Rightarrow> entry" where
  "new_row nid d =
     \<lparr>entry_id = nid, title = nw_title d, synopsis = nw_synopsis d, content = nw_content d,
      userId = nw_userId d, categoryId = nw_categoryId d,
      pinned = nullish (nw_pinned d) False, isPublic = nw_isPublic d,
      publicShareId = nullish (nw_publicShareId d) None, isDeleted = False\<rparr>"

text \<open>Modelled from the spec: \<^verbatim>\<open>prisma.entry.create({ data })\<close>. The identifier is assigned at
  creation: \<open>nid\<close> is the one the store picks, and a taken one is refused.\<close>

definition entry_create :: "string \<Rightarrow> entry_new \<Rightarrow> world \<Rightarrow> (exn + entry) \<times> world" where
  "entry_create nid d w =
     (if nid \<in> set (map entry_id (entries w))
      then (Inl unique_violation, log_call (EntryCreate nid) w)
      else (Inr (new_row nid d),
            log_call (EntryCreate nid) (w\<lparr>entries := entries w @ [new_row nid d]\<rparr>)))"

text \<open>Modelled from the spec: what \<^verbatim>\<open>prisma.entry.update\<close> does to the row it updates; the keys
  present in the data are written, the other columns keep their values.\<close>

definition apply_patch :: "entry_patch \<Rightarrow> entry \<Rightarrow> entry" where
  "apply_patch d e =
     e\<lparr>title := nullish (pt_title d) (title e),
       synopsis := nullish (pt_synopsis d) (synopsis e),
       content := nullish (pt_content d) (content e),
       categoryId := nullish (pt_categoryId d) (categoryId e),
       pinned := nullish (pt_pinned d) (pinned e),
       isPublic := nullish (pt_isPublic d) (isPublic e),
       publicShareId := nullish (pt_publicShareId d) (publicShareId e),
       isDeleted := nullish (pt_isDeleted d) (isDeleted e)\<rparr>"

text \<open>Modelled from the spec: \<^verbatim>\<open>prisma.entry.update({ where: { id }, data })\<close>; it raises when
  no row has the identifier.\<close>

definition entry_update :: "string \<Rightarrow> entry_patch \<Rightarrow> world \<Rightarrow> (exn + entry) \<times> world" where
  "entry_update i d w =
     (case find (\<lambda>e. entry_id e = i) (entries w) of
        None \<Rightarrow> (Inl record_not_found, log_call (EntryUpdate i) w)
      | Some e \<Rightarrow>
          (Inr (apply_patch d e),
           log_call (EntryUpdate i)
             (w\<lparr>entries := map (\<lambda>x. if entry_id x = i then apply_patch d x else x) (entries w)\<rparr>)))"

text \<open>Modelled from the spec: \<^verbatim>\<open>prisma.entry.delete({ where: { id } })\<close>; it raises when no row
  has the identifier.\<close>

definition entry_delete :: "string \<Rightarrow> world \<Rightarrow> (exn + entry) \<times> world" where
  "entry_delete i w =
     (case find (\<lambda>e. entry_id e = i) (entries w) of
        None \<Rightarrow> (Inl record_not_found, log_call (EntryDelete i) w)
      | Some e \<Rightarrow>
          (Inr e,
           log_call (EntryDelete i)
             (w\<lparr>entries := filter (\<lambda>x. entry_id x \<noteq> i) (entries w)\<rparr>)))"

text \<open>The empty update data, \<^verbatim>\<open>{}\<close>.\<close>

definition no_patch :: entry_patch where
  "no_patch = \<lparr>pt_title = None, pt_synopsis = None, pt_content = None, pt_categoryId = None,
               pt_pinned = None, pt_isPublic = None, pt_publicShareId = None,
               pt_isDeleted = None\<rparr>"

section \<open>The share-token allocator\<close>

text \<open>\<^verbatim>\<open>crypto.randomBytes(n)\<close>: the next \<open>n\<close> bytes of the random source.\<close>

definition randomBytes :: "nat \<Rightarrow> world \<Rightarrow> 8 word list \<times> world" where
  "randomBytes n w = (map (rng w) [0..<n], w\<lparr>rng := (\<lambda>i. rng w (i + n))\<rparr>)"

text \<open>The digit for a nibble; it is applied to \<open>d < 16\<close> only.\<close>

definition hex_digit :: "nat \<Rightarrow> char" where
  "hex_digit d = ''0123456789abcdef'' ! d"

text \<open>\<^verbatim>\<open>buf.toString("hex")\<close>: two lower-case hexadecimal digits for each byte.\<close>

definition toString_hex :: "8 word list \<Rightarrow> string" where
  "toString_hex bs =
     concat (map (\<lambda>b. [hex_digit (unat b div 16), hex_digit (unat b mod 16)]) bs)"

definition generateShareId :: "world \<Rightarrow> string \<times> world" where
  "generateShareId w = (case randomBytes 8 w of (buf, w') \<Rightarrow> (toString_hex buf, w'))"

definition MAX_ATTEMPTS :: nat where
  "MAX_ATTEMPTS = 5"

definition Exhausted :: exn where
  "Exhausted = Error ''Failed to generate a unique publicShareId after multiple attempts.''"

text \<open>The \<^verbatim>\<open>while (attempts < MAX_ATTEMPTS)\<close> loop of \<^verbatim>\<open>generateUniqueShareId\<close>, from the
  value \<open>attempts\<close> has on entry to an iteration. The two route files hold the same function.\<close>

function generateUniqueShareId_loop :: "nat \<Rightarrow> world \<Rightarrow> (exn + string) \<times> world" where
  "generateUniqueShareId_loop attempts w =
     (if attempts < MAX_ATTEMPTS then
        (case generateShareId w of (candidate, w1) \<Rightarrow>
          (case entry_findUnique_publicShareId candidate w1 of (conflict, w2) \<Rightarrow>
            (if conflict = None then (Inr candidate, w2)
             else generateUniqueShareId_loop (attempts + 1) w2)))
      else (Inl Exhausted, w))"
  by pat_completeness auto
termination
  by (relation "measure (\<lambda>(attempts, w). MAX_ATTEMPTS - attempts)") auto

definition generateUniqueShareId :: "world \<Rightarrow> (exn + string) \<times> world" where
  "generateUniqueShareId w = generateUniqueShareId_loop 0 w"

section \<open>Route handlers of \<^verbatim>\<open>entries.ts\<close>\<close>

text \<open>
  Each handler is modelled after authentication (\<open>uid\<close> is \<^verbatim>\<open>req.user!.id\<close>) and maps the
  request and the world to the response and the new world. The \<^verbatim>\<open>include\<close> of the category's
  name in a returned entry is left out.
\<close>

text \<open>\<^verbatim>\<open>GET /public/entries/:id\<close>\<close>

definition get_public_entry :: "string \<Rightarrow> world \<Rightarrow> response \<times> world" where
  "get_public_entry i w =
     (case entry_findUnique_id i w of (entry, w1) \<Rightarrow>
        (case entry of
           None \<Rightarrow> (Status 404 (Message ''Entry not found or is private.''), w1)
         | Some e \<Rightarrow>
             if \<not> isPublic e then (Status 404 (Message ''Entry not found or is private.''), w1)
             else (Status 200 (EntryBody e), w1)))"

text \<open>\<^verbatim>\<open>GET /:id\<close>\<close>

definition get_entry :: "string \<Rightarrow> string \<Rightarrow> world \<Rightarrow> response \<times> world" where
  "get_entry uid i w =
     (case entry_findFirst (where_id_userId_live i uid) w of (entry, w1) \<Rightarrow>
        (case entry of
           None \<Rightarrow> (Status 404 (Message ''Entry not found.''), w1)
         | Some e \<Rightarrow> (Status 200 (EntryBody e), w1)))"

text \<open>The body of \<^verbatim>\<open>POST /\<close> (\<^verbatim>\<open>EntryCreationData\<close>). A required string that is missing is
  undefined, which is falsy like the empty string and takes the same branch of the one
  check made on it; it is the empty string here.\<close>

record EntryCreationData =
  cr_title :: string
  cr_synopsis :: string
  cr_content :: string
  cr_categoryId :: string
  cr_pinned :: "bool option"
  cr_isPublic :: "bool option"

text \<open>\<^verbatim>\<open>POST /\<close>; \<open>nid\<close> is the identifier the store assigns to the new row.\<close>

definition create_entry :: "string \<Rightarrow> EntryCreationData \<Rightarrow> string \<Rightarrow> world \<Rightarrow> response \<times> world" where
  "create_entry uid b nid w =
     (if cr_title b = [] \<or> cr_synopsis b = [] \<or> cr_content b = [] \<or> cr_categoryId b = []
      then (Status 400 (Message ''Title, synopsis, content, and categoryId are required.''), w)
      else
        (case category_findUnique (cr_categoryId b) w of (categoryExists, w1) \<Rightarrow>
           if \<not> categoryExists then (Status 404 (Message ''Invalid categoryId provided.''), w1)
           else
             (case (if truthy_bool (cr_isPublic b)
                    then (case generateUniqueShareId w1 of (r, w2) \<Rightarrow> (map_sum id Some r, w2))
                    else (Inr None, w1)) of
                (Inl err, w2) \<Rightarrow> (Next err, w2)
              | (Inr shareId, w2) \<Rightarrow>
                  (case entry_create nid
                          \<lparr>nw_title = cr_title b, nw_synopsis = cr_synopsis b,
                           nw_content = cr_content b, nw_userId = uid,
                           nw_categoryId = cr_categoryId b,
                           nw_pinned = Some (nullish (cr_pinned b) False),
                           nw_isPublic = nullish (cr_isPublic b) False,
                           nw_publicShareId =
                             (if truthy_bool (cr_isPublic b) then Some shareId else None)\<rparr>
                          w2 of
                     (Inl err, w3) \<Rightarrow> (Next err, w3)
                   | (Inr e, w3) \<Rightarrow> (Status 201 (EntryBody e), w3)))))"

text \<open>The body of \<^verbatim>\<open>PATCH /:id\<close> (\<^verbatim>\<open>EntryUpdateData\<close>): \<open>None\<close> is undefined.\<close>

record EntryUpdateData =
  up_title :: "string option"
  up_synopsis :: "string option"
  up_content :: "string option"
  up_categoryId :: "string option"
  up_pinned :: "bool option"
  up_isPublic :: "bool option"

text \<open>The tail shared by the handlers that end in \<^verbatim>\<open>prisma.entry.update\<close> and return the
  entry, inside a \<^verbatim>\<open>try\<close> whose \<^verbatim>\<open>catch\<close> calls \<^verbatim>\<open>next(err)\<close>.\<close>

definition update_and_return :: "string \<Rightarrow> entry_patch \<Rightarrow> world \<Rightarrow> response \<times> world" where
  "update_and_return i d w =
     (case entry_update i d w of
        (Inl err, w') \<Rightarrow> (Next err, w')
      | (Inr e, w') \<Rightarrow> (Status 200 (EntryBody e), w'))"

text \<open>\<^verbatim>\<open>PATCH /:id\<close>\<close>

definition update_entry :: "string \<Rightarrow> string \<Rightarrow> EntryUpdateData \<Rightarrow> world \<Rightarrow> response \<times> world" where
  "update_entry uid i b w =
     (case entry_findFirst (where_id_userId i uid) w of (existing, w1) \<Rightarrow>
        (case existing of
           None \<Rightarrow> (Status 404 (Message ''Entry not found.''), w1)
         | Some ex \<Rightarrow>
             if isDeleted ex then (Status 404 (Message ''Entry not found.''), w1)
             else
               (case (case up_categoryId b of
                        None \<Rightarrow> (True, w1)
                      | Some c \<Rightarrow> category_findUnique c w1) of (valid, w2) \<Rightarrow>
                  if \<not> valid then (Status 404 (Message ''Invalid categoryId provided.''), w2)
                  else
                    (let updateData =
                           no_patch\<lparr>pt_title := up_title b, pt_synopsis := up_synopsis b,
                                    pt_content := up_content b, pt_categoryId := up_categoryId b,
                                    pt_pinned := up_pinned b\<rparr>
                     in case up_isPublic b of
                          None \<Rightarrow> update_and_return i updateData w2
                        | Some pub \<Rightarrow>
                            if pub then
                              (case generateUniqueShareId w2 of
                                 (Inl err, w3) \<Rightarrow> (Next err, w3)
                               | (Inr t, w3) \<Rightarrow>
                                   update_and_return i
                                     (updateData\<lparr>pt_isPublic := Some pub,
                                                 pt_publicShareId := Some (Some t)\<rparr>) w3)
                            else
                              update_and_return i
                                (updateData\<lparr>pt_isPublic := Some pub,
                                            pt_publicShareId := Some None\<rparr>) w2))))"

text \<open>\<^verbatim>\<open>PATCH /restore/:id\<close>\<close>

definition restore_entry :: "string \<Rightarrow> string \<Rightarrow> world \<Rightarrow> response \<times> world" where
  "restore_entry uid i w =
     (case entry_findFirst (where_id_userId i uid) w of (existing, w1) \<Rightarrow>
        (case existing of
           None \<Rightarrow> (Status 404 (Message ''Entry not found in trash.''), w1)
         | Some ex \<Rightarrow>
             if \<not> isDeleted ex then (Status 404 (Message ''Entry not found in trash.''), w1)
             else update_and_return i (no_patch\<lparr>pt_isDeleted := Some False\<rparr>) w1))"

text \<open>\<^verbatim>\<open>DELETE /:id\<close> (soft delete)\<close>

definition delete_entry :: "string \<Rightarrow> string \<Rightarrow> world \<Rightarrow> response \<times> world" where
  "delete_entry uid i w =
     (case entry_findFirst (where_id_userId i uid) w of (existing, w1) \<Rightarrow>
        (case existing of
           None \<Rightarrow> (Status 404 (Message ''Entry not found.''), w1)
         | Some ex \<Rightarrow>
             if isDeleted ex then (Status 404 (Message ''Entry not found.''), w1)
             else update_and_return i (no_patch\<lparr>pt_isDeleted := Some True\<rparr>) w1))"

text \<open>\<^verbatim>\<open>DELETE /permanent/:id\<close>\<close>

definition delete_entry_permanent :: "string \<Rightarrow> string \<Rightarrow> world \<Rightarrow> response \<times> world" where
  "delete_entry_permanent uid i w =
     (case entry_findFirst (where_id_userId i uid) w of (existing, w1) \<Rightarrow>
        (case existing of
           None \<Rightarrow> (Status 404 (Message ''Entry not found.''), w1)
         | Some ex \<Rightarrow>
             (case entry_delete i w1 of
                (Inl err, w2) \<Rightarrow> (Next err, w2)
              | (Inr e, w2) \<Rightarrow> (Status 200 (Message ''Entry permanently deleted.''), w2))))"

section \<open>Route handlers of \<^verbatim>\<open>notes.ts\<close>\<close>

text \<open>The body of \<^verbatim>\<open>POST /api/notes/generate\<close>; \<open>None\<close> is undefined.\<close>

record NoteGenerateBody =
  g_title :: "string option"
  g_synopsis :: "string option"
  g_audience :: "string option"
  g_tone :: "string option"
  g_length :: "string option"
  g_save :: "bool option"
  g_categoryId :: "string option"
  g_isPublic :: "bool option"

text \<open>\<^verbatim>\<open>GenerateNoteOptions\<close>, built with \<^verbatim>\<open>...(x && { x })\<close>: a key is present when its
  value is truthy.\<close>

record GenerateNoteOptions =
  o_title :: "string option"
  o_synopsis :: "string option"
  o_audience :: "string option"
  o_tone :: "string option"
  o_length :: "string option"

definition keep_truthy :: "string option \<Rightarrow> string option" where
  "keep_truthy x = (if truthy_str x then x else None)"

text \<open>
  \<^verbatim>\<open>generatedNote.split("\n")[0].replace(/^[#>\-*]+\s*/, "").trim().substring(0, 100)\<close>.
  A \<open>char\<close> stands for a code unit, and white space is the ASCII white space.
\<close>

definition is_space :: "char \<Rightarrow> bool" where
  "is_space c = (c \<in> set [CHR '' '', CHR 0x09, CHR 0x0A, CHR 0x0B, CHR 0x0C, CHR 0x0D])"

definition is_marker :: "char \<Rightarrow> bool" where
  "is_marker c = (c \<in> set ''#>-*'')"

definition strip_marker :: "string \<Rightarrow> string" where
  "strip_marker s =
     (case s of
        [] \<Rightarrow> s
      | c # _ \<Rightarrow> if is_marker c then dropWhile is_space (dropWhile is_marker s) else s)"

definition trim :: "string \<Rightarrow> string" where
  "trim s = rev (dropWhile is_space (rev (dropWhile is_space s)))"

definition fallbackTitle :: "string \<Rightarrow> string" where
  "fallbackTitle generatedNote =
     take 100 (trim (strip_marker (takeWhile (\<lambda>c. c \<noteq> CHR 0x0A) generatedNote)))"

text \<open>
  \<^verbatim>\<open>POST /api/notes/generate\<close>. \<open>user\<close> is \<^verbatim>\<open>req.user\<close> (its id), \<open>ai\<close> is the service
  \<^verbatim>\<open>generateFullNote\<close>, which returns the note or throws, and \<open>nid\<close> is the identifier
  the store assigns to a new row.
\<close>

definition generate_note ::
  "string option \<Rightarrow> NoteGenerateBody \<Rightarrow> (GenerateNoteOptions \<Rightarrow> exn + string) \<Rightarrow> string \<Rightarrow>
     world \<Rightarrow> response \<times> world" where
  "generate_note user b ai nid w =
     (case user of
        None \<Rightarrow> (Status 401 (ErrorBody ''Unauthorized''), w)
      | Some uid \<Rightarrow>
          if truthy_bool (g_save b) \<and> \<not> truthy_str (g_categoryId b)
          then (Status 400 (ErrorBody ''Saving requires a categoryId.''), w)
          else
            (case ai \<lparr>o_title = keep_truthy (g_title b), o_synopsis = keep_truthy (g_synopsis b),
                      o_audience = keep_truthy (g_audience b), o_tone = keep_truthy (g_tone b),
                      o_length = keep_truthy (g_length b)\<rparr> of
               Inl err \<Rightarrow> (Status 500 (ErrorBody ''Failed to generate or save note.''), w)
             | Inr generatedNote \<Rightarrow>
                 if truthy_bool (g_save b) \<and> truthy_str (g_categoryId b) then
                   (let safeTitle = nullish (g_title b) (fallbackTitle generatedNote);
                        safeSynopsis = nullish (g_synopsis b) safeTitle
                    in case (if truthy_bool (g_isPublic b)
                             then (case generateUniqueShareId w of
                                     (r, w1) \<Rightarrow> (map_sum id Some r, w1))
                             else (Inr None, w)) of
                         (Inl err, w1) \<Rightarrow>
                           (Status 500 (ErrorBody ''Failed to generate or save note.''), w1)
                       | (Inr shareId, w1) \<Rightarrow>
                           (case entry_create nid
                                   \<lparr>nw_title = safeTitle, nw_synopsis = safeSynopsis,
                                    nw_content = generatedNote, nw_userId = uid,
                                    nw_categoryId = nullish (g_categoryId b) [],
                                    nw_pinned = None,
                                    nw_isPublic = nullish (g_isPublic b) False,
                                    nw_publicShareId =
                                      (if truthy_bool (g_isPublic b) then Some shareId
                                       else None)\<rparr>
                                   w1 of
                              (Inl err, w2) \<Rightarrow>
                                (Status 500 (ErrorBody ''Failed to generate or save note.''), w2)
                            | (Inr e, w2) \<Rightarrow>
                                (Status 200
                                   (GeneratedBody generatedNote
                                      (Some (entry_id e, publicShareId e))), w2)))
                 else (Status 200 (GeneratedBody generatedNote None), w)))"

text \<open>The body of \<^verbatim>\<open>PATCH /api/notes/:id\<close>; \<open>None\<close> is undefined.\<close>

record NoteUpdateBody =
  n_title :: "string option"
  n_synopsis :: "string option"
  n_content :: "string option"
  n_categoryId :: "string option"
  n_isPublic :: "bool option"

text \<open>\<^verbatim>\<open>PATCH /api/notes/:id\<close>. The test \<^verbatim>\<open>!existing.publicShareId\<close> holds for null and for
  the empty string.\<close>

definition update_note :: "string \<Rightarrow> string \<Rightarrow> NoteUpdateBody \<Rightarrow> world \<Rightarrow> response \<times> world" where
  "update_note uid i b w =
     (case entry_findFirst (where_id_userId i uid) w of (existing, w1) \<Rightarrow>
        (case existing of
           None \<Rightarrow> (Status 404 (Message ''Note not found.''), w1)
         | Some ex \<Rightarrow>
             (case (case n_categoryId b of
                      None \<Rightarrow> (True, w1)
                    | Some c \<Rightarrow> category_findUnique c w1) of (valid, w2) \<Rightarrow>
                if \<not> valid then (Status 404 (Message ''Invalid categoryId.''), w2)
                else
                  (let updateData =
                         no_patch\<lparr>pt_title := n_title b, pt_synopsis := n_synopsis b,
                                  pt_content := n_content b, pt_categoryId := n_categoryId b\<rparr>
                   in case (case n_isPublic b of
                              None \<Rightarrow> (Inr updateData, w2)
                            | Some pub \<Rightarrow>
                                (case (if pub \<and> \<not> truthy_str (publicShareId ex)
                                       then (case generateUniqueShareId w2 of
                                               (r, w3) \<Rightarrow>
                                                 (map_sum id
                                                    (\<lambda>t. updateData\<lparr>pt_isPublic := Some pub,
                                                           pt_publicShareId := Some (Some t)\<rparr>) r,
                                                  w3))
                                       else (Inr (updateData\<lparr>pt_isPublic := Some pub\<rparr>), w2)) of
                                   (Inl err, w3) \<Rightarrow> (Inl err, w3)
                                 | (Inr d, w3) \<Rightarrow>
                                     (Inr (if \<not> pub then d\<lparr>pt_publicShareId := Some None\<rparr>
                                           else d), w3))) of
                        (Inl err, w3) \<Rightarrow> (Status 500 (ErrorBody ''Failed to update note.''), w3)
                      | (Inr d, w3) \<Rightarrow>
                          (case entry_update i d w3 of
                             (Inl err, w4) \<Rightarrow>
                               (Status 500 (ErrorBody ''Failed to update note.''), w4)
                           | (Inr e, w4) \<Rightarrow>
                               (Status 200
                                  (NoteBody (entry_id e) (publicShareId e) (title e)
                                     (synopsis e) (content e)), w4))))))"

section \<open>Sequences of requests\<close>

datatype request =
    GetPublicEntry string
  | GetEntry string string
  | CreateEntry string EntryCreationData string
  | UpdateEntry string string EntryUpdateData
  | RestoreEntry string string
  | DeleteEntry string string
  | DeleteEntryPermanent string string
  | GenerateNote "string option" NoteGenerateBody "GenerateNoteOptions \<Rightarrow> exn + string" string
  | UpdateNote string string NoteUpdateBody

fun handle :: "request \<Rightarrow> world \<Rightarrow> response \<times> world" where
  "handle (GetPublicEntry i) w = get_public_entry i w"
| "handle (GetEntry uid i) w = get_entry uid i w"
| "handle (CreateEntry uid b nid) w = create_entry uid b nid w"
| "handle (UpdateEntry uid i b) w = update_entry uid i b w"
| "handle (RestoreEntry uid i) w = restore_entry uid i w"
| "handle (DeleteEntry uid i) w = delete_entry uid i w"
| "handle (DeleteEntryPermanent uid i) w = delete_entry_permanent uid i w"
| "handle (GenerateNote user b ai nid) w = generate_note user b ai nid w"
| "handle (UpdateNote uid i b) w = update_note uid i b w"

text \<open>The requests are served one after the other, each on the world the one before left.\<close>

fun run :: "request list \<Rightarrow> world \<Rightarrow> world" where
  "run [] w = w"
| "run (r # rs) w = run rs (snd (handle r w))"

text \<open>The store before the first request: no entry, any categories, any random source.\<close>

definition initial :: "string list \<Rightarrow> (nat \<Rightarrow> 8 word) \<Rightarrow> world" where
  "initial cats r = \<lparr>entries = [], categories = cats, rng = r, calls = []\<rparr>"

section \<open>Notions used in the statements\<close>

text \<open>The store reports a conflict for a candidate: the existence probe of the allocator,
  \<^verbatim>\<open>prisma.entry.findUnique({ where: { publicShareId: candidate } })\<close>, finds an entry.\<close>

definition conflict :: "world \<Rightarrow> string \<Rightarrow> bool" where
  "conflict w c = (fst (entry_findUnique_publicShareId c w) \<noteq> None)"

text \<open>The first \<open>n\<close> candidates that successive calls of \<^verbatim>\<open>generateShareId\<close> draw.\<close>

fun draws :: "nat \<Rightarrow> world \<Rightarrow> string list" where
  "draws 0 w = []"
| "draws (Suc n) w = (case generateShareId w of (c, w') \<Rightarrow> c # draws n w')"

text \<open>The store calls logged between the world \<open>w\<close> and a later world \<open>w'\<close>.\<close>

definition new_calls :: "world \<Rightarrow> world \<Rightarrow> store_call list" where
  "new_calls w w' = drop (length (calls w)) (calls w')"

text \<open>Every one of the candidates an allocation would draw is taken.\<close>

definition exhausted :: "world \<Rightarrow> bool" where
  "exhausted w = list_all (conflict w) (draws MAX_ATTEMPTS w)"

text \<open>The shape of a token: 16 characters, each a lower-case hexadecimal digit.\<close>

definition hex_token :: "string \<Rightarrow> bool" where
  "hex_token t = (length t = 16 \<and> list_all (\<lambda>c. c \<in> set ''0123456789abcdef'') t)"

text \<open>Any other assignment \<open>g\<close> of share tokens to the rows, and its effect on an entry that
  a response carries.\<close>

definition retoken :: "(entry \<Rightarrow> string option) \<Rightarrow> entry \<Rightarrow> entry" where
  "retoken g e = e\<lparr>publicShareId := g e\<rparr>"

fun map_entry :: "(entry \<Rightarrow> entry) \<Rightarrow> response \<Rightarrow> response" where
  "map_entry f (Status c (EntryBody e)) = Status c (EntryBody (f e))"
| "map_entry f r = r"

text \<open>Any other setting \<open>g\<close> of the soft-delete flags, by identifier.\<close>

definition reflag :: "(string \<Rightarrow> bool) \<Rightarrow> entry \<Rightarrow> entry" where
  "reflag g e = e\<lparr>isDeleted := g (entry_id e)\<rparr>"

subsection \<open>Invariants\<close>

text \<open>The invariant of the spec's data model for one entry: it is public exactly when it
  has a share token.\<close>

definition share_inv :: "entry \<Rightarrow> bool" where
  "share_inv e = ((isPublic e \<longrightarrow> publicShareId e \<noteq> None) \<and> (\<not> isPublic e \<longrightarrow> publicShareId e = None))"

text \<open>No two entries with different identifiers hold the same token.\<close>

definition tokens_unique :: "entry list \<Rightarrow> bool" where
  "tokens_unique es =
     (\<forall>e \<in> set es. \<forall>e' \<in> set es.
        publicShareId e \<noteq> None \<and> publicShareId e = publicShareId e' \<longrightarrow> entry_id e = entry_id e')"

text \<open>The invariant that every handler preserves: identifiers are distinct (they are the
  primary key), every entry satisfies \<open>share_inv\<close>, and bound tokens are unique.\<close>

definition store_inv :: "entry list \<Rightarrow> bool" where
  "store_inv es = (distinct (map entry_id es) \<and> list_all share_inv es \<and> tokens_unique es)"

section \<open>Notions used in the proofs\<close>

text \<open>What \<^verbatim>\<open>prisma.entry.update({ where: { id: i }, data: d })\<close> does to one row.\<close>

definition patch_row :: "string \<Rightarrow> entry_patch \<Rightarrow> entry \<Rightarrow> entry" where
  "patch_row i d x = (if entry_id x = i then apply_patch d x else x)"

text \<open>The \<open>publicShareId\<close> key of the update data, given the requested \<open>isPublic\<close> and the
  token allocated for the request, if any.\<close>

definition share_part :: "bool option \<Rightarrow> string option \<Rightarrow> string option option" where
  "share_part pub tok =
     (case pub of None \<Rightarrow> None | Some p \<Rightarrow> if p then map_option Some tok else Some None)"

text \<open>The update data that the two update handlers build from the request body and the
  allocated token.\<close>

definition note_patch :: "NoteUpdateBody \<Rightarrow> string option \<Rightarrow> entry_patch" where
  "note_patch b tok =
     \<lparr>pt_title = n_title b, pt_synopsis = n_synopsis b, pt_content = n_content b,
      pt_categoryId = n_categoryId b, pt_pinned = None, pt_isPublic = n_isPublic b,
      pt_publicShareId = share_part (n_isPublic b) tok, pt_isDeleted = None\<rparr>"

definition update_patch :: "EntryUpdateData \<Rightarrow> string option \<Rightarrow> entry_patch" where
  "update_patch b tok =
     \<lparr>pt_title = up_title b, pt_synopsis = up_synopsis b, pt_content = up_content b,
      pt_categoryId = up_categoryId b, pt_pinned = up_pinned b, pt_isPublic = up_isPublic b,
      pt_publicShareId = share_part (up_isPublic b) tok, pt_isDeleted = None\<rparr>"

text \<open>The \<^verbatim>\<open>select\<close> of the note update: id, publicShareId, title, synopsis, content.\<close>

definition note_of :: "entry \<Rightarrow> body" where
  "note_of e = NoteBody (entry_id e) (publicShareId e) (title e) (synopsis e) (content e)"

text \<open>Conditions on the data of an update of the row \<open>i\<close> under which the invariant is
  kept: on what it does to the row, and on the keys \<open>isPublic\<close> and \<open>publicShareId\<close> it
  carries (\<open>uid\<close> is the requesting user, whose row the handler looked up).\<close>

definition good_patch :: "entry list \<Rightarrow> string \<Rightarrow> entry_patch \<Rightarrow> bool" where
  "good_patch es i d =
     (\<forall>x \<in> set es. entry_id x = i \<longrightarrow>
        share_inv (apply_patch d x)
        \<and> (publicShareId (apply_patch d x) = publicShareId x
           \<or> publicShareId (apply_patch d x) = None
           \<or> (\<forall>y \<in> set es. publicShareId y \<noteq> publicShareId (apply_patch d x))))"

definition patch_ok :: "entry list \<Rightarrow> string \<Rightarrow> string \<Rightarrow> entry_patch \<Rightarrow> bool" where
  "patch_ok es i uid d =
     (case pt_isPublic d of
        None \<Rightarrow> pt_publicShareId d = None
      | Some pub \<Rightarrow>
          if pub then
            (case pt_publicShareId d of
               None \<Rightarrow>
                 (case find (where_id_userId i uid) es of
                    None \<Rightarrow> False
                  | Some ex \<Rightarrow> truthy_str (publicShareId ex))
             | Some None \<Rightarrow> False
             | Some (Some t) \<Rightarrow> (\<forall>y \<in> set es. publicShareId y \<noteq> Some t))
          else pt_publicShareId d = Some None)"

section \<open>Example data\<close>

text \<open>A store with one public entry; its random source yields the entry's token first and a
  free token after it.\<close>

definition demo_rng :: "nat \<Rightarrow> 8 word" where
  "demo_rng i = (if i < 8 then 0x00 else 0xa7)"

definition demo_entry :: entry where
  "demo_entry =
     \<lparr>entry_id = ''e1'', title = ''Title'', synopsis = ''Synopsis'', content = ''Content'',
      userId = ''u1'', categoryId = ''c1'', pinned = False, isPublic = True,
      publicShareId = Some ''0000000000000000'', isDeleted = False\<rparr>"

definition demo_world :: world where
  "demo_world = \<lparr>entries = [demo_entry], categories = [''c1''], rng = demo_rng, calls = []\<rparr>"

text \<open>A store where every candidate the random source yields is taken.\<close>

definition stuck_world :: world where
  "stuck_world = \<lparr>entries = [demo_entry], categories = [''c1''], rng = (\<lambda>i. 0x00), calls = []\<rparr>"

text \<open>A store whose entry is shared under the token \<open>abc123\<close>, and one whose entry is in
  the trash.\<close>

definition shared_world :: world where
  "shared_world =
     \<lparr>entries = [demo_entry\<lparr>publicShareId := Some ''abc123''\<rparr>], categories = [''c1''],
      rng = demo_rng, calls = []\<rparr>"

definition trashed_world :: world where
  "trashed_world =
     \<lparr>entries = [demo_entry\<lparr>isDeleted := True\<rparr>], categories = [''c1''],
      rng = demo_rng, calls = []\<rparr>"

text \<open>The requests that only set \<^verbatim>\<open>isPublic\<close> to true, for the two update routes.\<close>

definition publish :: EntryUpdateData where
  "publish = \<lparr>up_title = None, up_synopsis = None, up_content = None, up_categoryId = None,
              up_pinned = None, up_isPublic = Some True\<rparr>"

definition republish :: NoteUpdateBody where
  "republish = \<lparr>n_title = None, n_synopsis = None, n_content = None, n_categoryId = None,
                n_isPublic = Some True\<rparr>"

text \<open>A run of five requests on an empty store, with a random source that counts.\<close>

definition count_rng :: "nat \<Rightarrow> 8 word" where
  "count_rng i = of_nat i"

definition demo_creation :: EntryCreationData where
  "demo_creation =
     \<lparr>cr_title = ''Title'', cr_synopsis = ''Synopsis'', cr_content = ''Content'',
      cr_categoryId = ''c1'', cr_pinned = None, cr_isPublic = Some True\<rparr>"

definition demo_requests :: "request list" where
  "demo_requests =
     [CreateEntry ''u1'' demo_creation ''e1'',
      CreateEntry ''u2'' demo_creation ''e2'',
      UpdateEntry ''u1'' ''e1'' publish,
      UpdateNote ''u2'' ''e2'' republish,
      DeleteEntry ''u1'' ''e1'']"

section \<open>The allocator loop\<close>

declare generateUniqueShareId_loop.simps [simp del]

lemma generateShareId_eq:
  "generateShareId w = (toString_hex (map (rng w) [0..<8]), w\<lparr>rng := (\<lambda>i. rng w (i + 8))\<rparr>)"
  by (simp add: generateShareId_def randomBytes_def)

lemma conflict_frame: "entries w' = entries w \<Longrightarrow> conflict w' = conflict w"
  by (rule ext) (simp add: conflict_def entry_findUnique_publicShareId_def)

lemma draws_frame: "rng w' = rng w \<Longrightarrow> draws n w' = draws n w"
proof (induction n arbitrary: w w')
  case 0
  show ?case by simp
next
  case (Suc n)
  have "draws n (w'\<lparr>rng := (\<lambda>i. rng w' (i + 8))\<rparr>) = draws n (w\<lparr>rng := (\<lambda>i. rng w (i + 8))\<rparr>)"
    by (rule Suc.IH) (simp add: Suc.prems)
  then show ?case by (simp add: generateShareId_eq Suc.prems)
qed

lemma loop_done: "\<not> a < MAX_ATTEMPTS \<Longrightarrow> generateUniqueShareId_loop a w = (Inl Exhausted, w)"
  using generateUniqueShareId_loop.simps [of a w] by simp

lemma loop_step:
  "a < MAX_ATTEMPTS \<Longrightarrow>
   generateUniqueShareId_loop a w =
     (case generateShareId w of (c, w1) \<Rightarrow>
        if conflict w c
        then generateUniqueShareId_loop (Suc a) (log_call (EntryFindUniqueShareId c) w1)
        else (Inr c, log_call (EntryFindUniqueShareId c) w1))"
  using generateUniqueShareId_loop.simps [of a w]
  by (simp add: generateShareId_eq entry_findUnique_publicShareId_def conflict_def)

lemma loop_spec:
  "a + n = MAX_ATTEMPTS \<Longrightarrow>
   generateUniqueShareId_loop a w =
     (let cs = draws n w; k = length (takeWhile (conflict w) cs)
      in (if k < n then Inr (cs ! k) else Inl Exhausted,
          w\<lparr>rng := (\<lambda>i. rng w (i + 8 * min (Suc k) n)),
            calls := calls w @ map EntryFindUniqueShareId (take (Suc k) cs)\<rparr>))"
proof (induction n arbitrary: a w)
  case 0
  then show ?case by (simp add: loop_done)
next
  case (Suc n)
  let ?c = "toString_hex (map (rng w) [0..<8])"
  let ?w1 = "w\<lparr>rng := (\<lambda>i. rng w (i + 8))\<rparr>"
  let ?w2 = "log_call (EntryFindUniqueShareId ?c) ?w1"
  from Suc.prems have a: "a < MAX_ATTEMPTS" and a': "Suc a + n = MAX_ATTEMPTS" by simp_all
  have e: "conflict ?w2 = conflict w" by (rule conflict_frame) (simp add: log_call_def)
  have d: "draws n ?w2 = draws n ?w1" by (rule draws_frame) (simp add: log_call_def)
  show ?case
  proof (cases "conflict w ?c")
    case False
    then show ?thesis
      by (simp add: loop_step [OF a] generateShareId_eq log_call_def)
  next
    case True
    then show ?thesis
      by (simp add: loop_step [OF a] generateShareId_eq Suc.IH [OF a'] e d Let_def)
         (simp add: log_call_def add.commute add.left_commute)
  qed
qed


lemma length_draws: "length (draws n w) = n"
  by (induction n arbitrary: w) (simp_all add: generateShareId_eq)

lemma hex_digit_mem: "d < 16 \<Longrightarrow> hex_digit d \<in> set ''0123456789abcdef''"
  unfolding hex_digit_def by (rule nth_mem) simp

lemma unat_byte_div: "unat (b :: 8 word) div 16 < 16"
proof -
  have "unat b < 2 ^ LENGTH(8)" by (rule unsigned_less)
  then show ?thesis by simp
qed

lemma toString_hex_length: "length (toString_hex bs) = 2 * length bs"
  by (induction bs) (simp_all add: toString_hex_def)

lemma toString_hex_chars: "c \<in> set (toString_hex bs) \<Longrightarrow> c \<in> set ''0123456789abcdef''"
  unfolding toString_hex_def
  using hex_digit_mem [OF unat_byte_div] hex_digit_mem [of "unat b mod 16" for b :: "8 word"]
  by (induction bs) auto

lemma hex_token_toString_hex: "length bs = 8 \<Longrightarrow> hex_token (toString_hex bs)"
  unfolding hex_token_def list_all_iff
  using toString_hex_chars by (simp add: toString_hex_length)

lemma draws_hex: "t \<in> set (draws n w) \<Longrightarrow> hex_token t"
  by (induction n arbitrary: w) (auto simp: generateShareId_eq hex_token_toString_hex)

lemma gen_spec:
  "generateUniqueShareId w =
     (let cs = draws MAX_ATTEMPTS w; k = length (takeWhile (conflict w) cs)
      in (if k < MAX_ATTEMPTS then Inr (cs ! k) else Inl Exhausted,
          w\<lparr>rng := (\<lambda>i. rng w (i + 8 * min (Suc k) MAX_ATTEMPTS)),
            calls := calls w @ map EntryFindUniqueShareId (take (Suc k) cs)\<rparr>))"
  unfolding generateUniqueShareId_def by (rule loop_spec) simp

lemma gen_entries [simp]: "entries (snd (generateUniqueShareId w)) = entries w"
  by (simp add: gen_spec Let_def)

lemma gen_categories [simp]: "categories (snd (generateUniqueShareId w)) = categories w"
  by (simp add: gen_spec Let_def)

lemma gen_calls:
  "calls (snd (generateUniqueShareId w)) =
     calls w @ map EntryFindUniqueShareId
       (take (Suc (length (takeWhile (conflict w) (draws MAX_ATTEMPTS w)))) (draws MAX_ATTEMPTS w))"
  by (simp add: gen_spec Let_def)

lemma gen_result:
  "fst (generateUniqueShareId w) =
     (if length (takeWhile (conflict w) (draws MAX_ATTEMPTS w)) < MAX_ATTEMPTS
      then Inr (draws MAX_ATTEMPTS w ! length (takeWhile (conflict w) (draws MAX_ATTEMPTS w)))
      else Inl Exhausted)"
  by (simp add: gen_spec Let_def)

lemma takeWhile_all: "length (takeWhile P xs) = length xs \<longleftrightarrow> list_all P xs"
  by (induction xs) auto

lemma takeWhile_first:
  "n < length xs \<Longrightarrow> list_all P (take n xs) \<Longrightarrow> \<not> P (xs ! n) \<Longrightarrow> length (takeWhile P xs) = n"
proof (induction xs arbitrary: n)
  case Nil
  then show ?case by simp
next
  case (Cons x xs)
  then show ?case by (cases n) auto
qed

lemma gen_Inl_iff: "fst (generateUniqueShareId w) = Inl e \<longleftrightarrow> e = Exhausted \<and> exhausted w"
proof -
  have "length (takeWhile (conflict w) (draws MAX_ATTEMPTS w)) \<le> MAX_ATTEMPTS"
    using length_takeWhile_le [of "conflict w" "draws MAX_ATTEMPTS w"] by (simp add: length_draws)
  moreover have "length (takeWhile (conflict w) (draws MAX_ATTEMPTS w)) = MAX_ATTEMPTS \<longleftrightarrow> exhausted w"
    using takeWhile_all [of "conflict w" "draws MAX_ATTEMPTS w"] by (simp add: length_draws exhausted_def)
  ultimately show ?thesis by (auto simp: gen_result)
qed

lemma gen_Inr_absent:
  assumes "fst (generateUniqueShareId w) = Inr t"
  shows "\<not> conflict w t" and "hex_token t"
proof -
  let ?cs = "draws MAX_ATTEMPTS w"
  let ?k = "length (takeWhile (conflict w) ?cs)"
  from assms have k: "?k < MAX_ATTEMPTS" and t: "t = ?cs ! ?k"
    by (auto simp: gen_result split: if_splits)
  from k have "?k < length ?cs" by (simp add: length_draws)
  then have "\<not> conflict w (?cs ! ?k)" by (rule nth_length_takeWhile)
  then show "\<not> conflict w t" by (simp add: t)
  from k have "?cs ! ?k \<in> set ?cs" by (simp add: length_draws)
  then show "hex_token t" unfolding t by (rule draws_hex)
qed

lemma conflict_iff: "conflict w t \<longleftrightarrow> (\<exists>e \<in> set (entries w). publicShareId e = Some t)"
  by (auto simp: conflict_def entry_findUnique_publicShareId_def find_None_iff)


lemma new_calls_gen:
  "new_calls w (snd (generateUniqueShareId w)) =
     map EntryFindUniqueShareId
       (take (Suc (length (takeWhile (conflict w) (draws MAX_ATTEMPTS w)))) (draws MAX_ATTEMPTS w))"
  by (simp add: new_calls_def gen_calls)

lemma all_probe_map: "list_all is_probe (map EntryFindUniqueShareId cs)"
  by (simp add: list_all_iff)

text \<open>
  Claim C3. Whatever the store holds and whatever the random source yields, one call of
  \<^verbatim>\<open>generateUniqueShareId\<close> adds at most 5 calls to the log of store calls, all of them
  existence probes. The loop is a total function (its termination is proved where it is
  defined), so the call always returns.
\<close>

theorem allocator_probes_bounded:
  "length (new_calls w (snd (generateUniqueShareId w))) \<le> 5
   \<and> list_all is_probe (new_calls w (snd (generateUniqueShareId w)))
   \<and> calls (snd (generateUniqueShareId w)) = calls w @ new_calls w (snd (generateUniqueShareId w))"
proof -
  have "length (new_calls w (snd (generateUniqueShareId w))) \<le> length (draws MAX_ATTEMPTS w)"
    unfolding new_calls_gen by simp
  then have "length (new_calls w (snd (generateUniqueShareId w))) \<le> 5"
    by (simp add: length_draws MAX_ATTEMPTS_def)
  moreover have "list_all is_probe (new_calls w (snd (generateUniqueShareId w)))"
    unfolding new_calls_gen by (rule all_probe_map)
  moreover have "calls (snd (generateUniqueShareId w)) = calls w @ new_calls w (snd (generateUniqueShareId w))"
    unfolding new_calls_gen by (rule gen_calls)
  ultimately show ?thesis by simp
qed

text \<open>
  Claim C5. For \<open>1 \<le> k \<le> 5\<close>: when the store reports a conflict for the first \<open>k - 1\<close>
  candidates drawn and none for the \<open>k\<close>-th, the allocator returns the \<open>k\<close>-th candidate
  after exactly \<open>k\<close> probes, which are the probes of the first \<open>k\<close> candidates in order.
  Every token the allocator returns has 16 characters, all of them hexadecimal digits.
\<close>

theorem allocator_kth_candidate:
  "(1 \<le> k \<and> k \<le> 5 \<and> list_all (conflict w) (take (k - 1) (draws 5 w))
      \<and> \<not> conflict w (draws 5 w ! (k - 1))
    \<longrightarrow> fst (generateUniqueShareId w) = Inr (draws 5 w ! (k - 1))
        \<and> new_calls w (snd (generateUniqueShareId w)) =
            map EntryFindUniqueShareId (take k (draws 5 w))
        \<and> length (new_calls w (snd (generateUniqueShareId w))) = k)
   \<and> (fst (generateUniqueShareId w) = Inr t \<longrightarrow> hex_token t)"
proof (intro conjI impI)
  assume h: "1 \<le> k \<and> k \<le> 5 \<and> list_all (conflict w) (take (k - 1) (draws 5 w))
      \<and> \<not> conflict w (draws 5 w ! (k - 1))"
  then have "k - 1 < length (draws 5 w)" unfolding length_draws by arith
  with h have len: "length (takeWhile (conflict w) (draws 5 w)) = k - 1"
    by (intro takeWhile_first) simp_all
  from h have k: "Suc (k - 1) = k" "k - 1 < 5" by arith+
  show "fst (generateUniqueShareId w) = Inr (draws 5 w ! (k - 1))"
    using k by (simp add: gen_result MAX_ATTEMPTS_def len)
  show c: "new_calls w (snd (generateUniqueShareId w)) =
            map EntryFindUniqueShareId (take k (draws 5 w))"
    using k by (simp add: new_calls_gen MAX_ATTEMPTS_def len)
  show "length (new_calls w (snd (generateUniqueShareId w))) = k"
    using h by (simp add: c length_draws)
next
  assume "fst (generateUniqueShareId w) = Inr t"
  then show "hex_token t" by (rule gen_Inr_absent)
qed

text \<open>In the example store the first candidate is taken and the second one is free.\<close>

lemma draws_demo:
  "draws 5 demo_world = [''0000000000000000'', ''a7a7a7a7a7a7a7a7'', ''a7a7a7a7a7a7a7a7'',
     ''a7a7a7a7a7a7a7a7'', ''a7a7a7a7a7a7a7a7'']"
  by code_simp

lemma conflict_demo: "conflict demo_world t \<longleftrightarrow> t = ''0000000000000000''"
  by (auto simp add: conflict_iff demo_world_def demo_entry_def)

theorem allocator_kth_candidate_witness:
  "fst (generateUniqueShareId demo_world) = Inr ''a7a7a7a7a7a7a7a7''
   \<and> new_calls demo_world (snd (generateUniqueShareId demo_world)) =
       [EntryFindUniqueShareId ''0000000000000000'', EntryFindUniqueShareId ''a7a7a7a7a7a7a7a7'']
   \<and> hex_token ''a7a7a7a7a7a7a7a7''"
  using allocator_kth_candidate [of 2 demo_world "''a7a7a7a7a7a7a7a7''"]
  by (simp add: draws_demo conflict_demo)

section \<open>Exhaustion and its callers\<close>

lemma conflict_log_call [simp]: "conflict (log_call c w) = conflict w"
  by (rule conflict_frame) (simp add: log_call_def)

lemma draws_log_call [simp]: "draws n (log_call c w) = draws n w"
  by (rule draws_frame) (simp add: log_call_def)

lemma exhausted_log_call [simp]: "exhausted (log_call c w) = exhausted w"
  by (simp add: exhausted_def)

lemma log_call_simps [simp]:
  "entries (log_call c w) = entries w"
  "categories (log_call c w) = categories w"
  "rng (log_call c w) = rng w"
  "calls (log_call c w) = calls w @ [c]"
  by (simp_all add: log_call_def)

lemma gen_exhausted:
  "exhausted w \<Longrightarrow>
   generateUniqueShareId w =
     (Inl Exhausted,
      w\<lparr>rng := (\<lambda>i. rng w (i + 8 * MAX_ATTEMPTS)),
        calls := calls w @ map EntryFindUniqueShareId (draws MAX_ATTEMPTS w)\<rparr>)"
proof -
  assume "exhausted w"
  then have "length (takeWhile (conflict w) (draws MAX_ATTEMPTS w)) = MAX_ATTEMPTS"
    using takeWhile_all [of "conflict w" "draws MAX_ATTEMPTS w"] by (simp add: exhausted_def length_draws)
  then show ?thesis by (simp add: gen_spec Let_def length_draws)
qed

lemma new_calls_append [simp]: "new_calls w (w'\<lparr>calls := calls w @ xs\<rparr>) = xs"
  by (simp add: new_calls_def)

lemma new_calls_log [simp]:
  "calls w' = calls w @ xs \<Longrightarrow> new_calls w (log_call c w') = xs @ [c]"
  by (simp add: new_calls_def)

lemma new_calls_self [simp]: "new_calls w w = []"
  by (simp add: new_calls_def)

lemma no_write_probes [simp]: "list_ex is_write (map EntryFindUniqueShareId cs) = False"
  by (simp add: list_ex_iff)

lemma create_entry_exhausted:
  assumes "exhausted w" "list_ex is_probe (new_calls w (snd (create_entry uid b nid w)))"
  shows "fst (create_entry uid b nid w) = Next Exhausted"
    and "entries (snd (create_entry uid b nid w)) = entries w"
    and "categories (snd (create_entry uid b nid w)) = categories w"
    and "\<not> list_ex is_write (new_calls w (snd (create_entry uid b nid w)))"
  using assms
  by (auto simp: create_entry_def category_findUnique_def gen_exhausted new_calls_def
      entry_create_def split: if_splits)


lemma update_entry_exhausted:
  assumes "exhausted w" "list_ex is_probe (new_calls w (snd (update_entry uid i b w)))"
  shows "fst (update_entry uid i b w) = Next Exhausted"
    and "entries (snd (update_entry uid i b w)) = entries w"
    and "categories (snd (update_entry uid i b w)) = categories w"
    and "\<not> list_ex is_write (new_calls w (snd (update_entry uid i b w)))"
  using assms
  by (auto simp: update_entry_def update_and_return_def entry_findFirst_def category_findUnique_def
      gen_exhausted new_calls_def entry_update_def Let_def split: if_splits option.splits)

lemma generate_note_exhausted:
  assumes "exhausted w" "list_ex is_probe (new_calls w (snd (generate_note user b ai nid w)))"
  shows "fst (generate_note user b ai nid w) = Status 500 (ErrorBody ''Failed to generate or save note.'')"
    and "entries (snd (generate_note user b ai nid w)) = entries w"
    and "categories (snd (generate_note user b ai nid w)) = categories w"
    and "\<not> list_ex is_write (new_calls w (snd (generate_note user b ai nid w)))"
  using assms
  by (auto simp: generate_note_def gen_exhausted new_calls_def Let_def
      entry_create_def split: if_splits option.splits sum.splits)

lemma update_note_exhausted:
  assumes "exhausted w" "list_ex is_probe (new_calls w (snd (update_note uid i b w)))"
  shows "fst (update_note uid i b w) = Status 500 (ErrorBody ''Failed to update note.'')"
    and "entries (snd (update_note uid i b w)) = entries w"
    and "categories (snd (update_note uid i b w)) = categories w"
    and "\<not> list_ex is_write (new_calls w (snd (update_note uid i b w)))"
  using assms
  by (auto simp: update_note_def entry_findFirst_def category_findUnique_def
      gen_exhausted new_calls_def entry_update_def Let_def split: if_splits option.splits)

lemma no_probe_reads:
  "\<not> list_ex is_probe (new_calls w (snd (get_public_entry i w)))"
  "\<not> list_ex is_probe (new_calls w (snd (get_entry uid i w)))"
  "\<not> list_ex is_probe (new_calls w (snd (restore_entry uid i w)))"
  "\<not> list_ex is_probe (new_calls w (snd (delete_entry uid i w)))"
  "\<not> list_ex is_probe (new_calls w (snd (delete_entry_permanent uid i w)))"
  by (auto simp: get_public_entry_def get_entry_def restore_entry_def delete_entry_def
      delete_entry_permanent_def entry_findUnique_id_def entry_findFirst_def update_and_return_def
      entry_update_def entry_delete_def new_calls_def split: option.splits)

lemma handle_exhausted:
  assumes "exhausted w" "list_ex is_probe (new_calls w (snd (handle r w)))"
  shows "fst (handle r w) = Next Exhausted
         \<or> fst (handle r w) = Status 500 (ErrorBody ''Failed to generate or save note.'')
         \<or> fst (handle r w) = Status 500 (ErrorBody ''Failed to update note.'')"
    and "entries (snd (handle r w)) = entries w"
    and "categories (snd (handle r w)) = categories w"
    and "\<not> list_ex is_write (new_calls w (snd (handle r w)))"
  using assms
  by (cases r; simp add: no_probe_reads create_entry_exhausted update_entry_exhausted
      generate_note_exhausted update_note_exhausted)+


lemma exhausted5: "exhausted w = list_all (conflict w) (draws 5 w)"
  by (simp add: exhausted_def MAX_ATTEMPTS_def)

text \<open>
  Claim C4. When the store reports a conflict for each of the 5 candidates drawn, the
  allocator fails with \<open>Exhausted\<close> after the probes of exactly these 5 candidates, and
  there is no other failure: a failure is \<open>Exhausted\<close> and means that all 5 candidates
  were taken. A request that calls the allocator in such a world (its store calls include
  an existence probe) ends in the error: the handlers of \<^verbatim>\<open>entries.ts\<close> pass it to
  \<^verbatim>\<open>next\<close>, those of \<^verbatim>\<open>notes.ts\<close> answer with status 500.
\<close>

theorem exhaustion_after_five_probes:
  "(list_all (conflict w) (draws 5 w) \<longrightarrow>
      fst (generateUniqueShareId w) = Inl Exhausted
      \<and> new_calls w (snd (generateUniqueShareId w)) = map EntryFindUniqueShareId (draws 5 w)
      \<and> length (new_calls w (snd (generateUniqueShareId w))) = 5)
   \<and> (fst (generateUniqueShareId w) = Inl e \<longrightarrow>
         e = Exhausted \<and> list_all (conflict w) (draws 5 w))
   \<and> (list_all (conflict w) (draws 5 w) \<and> list_ex is_probe (new_calls w (snd (handle r w))) \<longrightarrow>
         fst (handle r w) = Next Exhausted
         \<or> fst (handle r w) = Status 500 (ErrorBody ''Failed to generate or save note.'')
         \<or> fst (handle r w) = Status 500 (ErrorBody ''Failed to update note.''))"
proof (intro conjI impI)
  assume "list_all (conflict w) (draws 5 w)"
  then have x: "exhausted w" by (simp add: exhausted5)
  show "fst (generateUniqueShareId w) = Inl Exhausted"
    by (simp add: gen_exhausted [OF x])
  show c: "new_calls w (snd (generateUniqueShareId w)) = map EntryFindUniqueShareId (draws 5 w)"
    by (simp add: gen_exhausted [OF x] MAX_ATTEMPTS_def)
  show "length (new_calls w (snd (generateUniqueShareId w))) = 5"
    by (simp add: c length_draws)
next
  assume "fst (generateUniqueShareId w) = Inl e"
  then have "e = Exhausted \<and> exhausted w" by (simp add: gen_Inl_iff)
  then show "e = Exhausted" and "list_all (conflict w) (draws 5 w)" by (simp_all add: exhausted5)
next
  assume "list_all (conflict w) (draws 5 w) \<and> list_ex is_probe (new_calls w (snd (handle r w)))"
  then have "exhausted w" and "list_ex is_probe (new_calls w (snd (handle r w)))"
    by (simp_all add: exhausted5)
  then show "fst (handle r w) = Next Exhausted
         \<or> fst (handle r w) = Status 500 (ErrorBody ''Failed to generate or save note.'')
         \<or> fst (handle r w) = Status 500 (ErrorBody ''Failed to update note.'')"
    by (rule handle_exhausted)
qed

lemma stuck_conflicts: "list_all (conflict stuck_world) (draws 5 stuck_world)"
  by code_simp

lemma stuck_probes:
  "list_ex is_probe (new_calls stuck_world (snd (handle (UpdateEntry ''u1'' ''e1'' publish) stuck_world)))"
  by code_simp

lemma stuck_response: "fst (handle (UpdateEntry ''u1'' ''e1'' publish) stuck_world) = Next Exhausted"
  by code_simp

theorem exhaustion_after_five_probes_witness:
  "fst (generateUniqueShareId stuck_world) = Inl Exhausted
   \<and> length (new_calls stuck_world (snd (generateUniqueShareId stuck_world))) = 5
   \<and> fst (handle (UpdateEntry ''u1'' ''e1'' publish) stuck_world) = Next Exhausted"
  using exhaustion_after_five_probes [of stuck_world Exhausted "UpdateEntry ''u1'' ''e1'' publish"]
    stuck_conflicts stuck_probes stuck_response
  by (simp add: length_draws)

text \<open>
  Claim C7. When the allocation fails inside a request (every candidate is taken and the
  request calls the allocator), the request makes no create, update or delete call, leaves
  both tables as they were, and does not answer with a success.
\<close>

theorem exhaustion_commits_nothing:
  assumes "list_all (conflict w) (draws 5 w)"
    and "list_ex is_probe (new_calls w (snd (handle r w)))"
  shows "entries (snd (handle r w)) = entries w
       \<and> categories (snd (handle r w)) = categories w
       \<and> \<not> list_ex is_write (new_calls w (snd (handle r w)))
       \<and> \<not> is_success (fst (handle r w))"
proof -
  from assms have x: "exhausted w" by (simp add: exhausted5)
  have "\<not> is_success (fst (handle r w))"
    using handle_exhausted(1) [OF x assms(2)] by auto
  then show ?thesis
    using handle_exhausted(2-4) [OF x assms(2)] by simp
qed

theorem exhaustion_commits_nothing_witness:
  "entries (snd (handle (UpdateEntry ''u1'' ''e1'' publish) stuck_world)) = entries stuck_world
   \<and> \<not> list_ex is_write
         (new_calls stuck_world (snd (handle (UpdateEntry ''u1'' ''e1'' publish) stuck_world)))
   \<and> \<not> is_success (fst (handle (UpdateEntry ''u1'' ''e1'' publish) stuck_world))"
  using exhaustion_commits_nothing [OF stuck_conflicts stuck_probes] by simp

text \<open>
  Claim C8. A call of \<^verbatim>\<open>generateUniqueShareId\<close> leaves both tables unchanged; the store
  calls it makes are existence probes, none of them a create, update or delete; and a token
  it returns is still bound to no entry when it returns, so binding is left to the caller.
\<close>

theorem allocator_read_only:
  "entries (snd (generateUniqueShareId w)) = entries w
   \<and> categories (snd (generateUniqueShareId w)) = categories w
   \<and> list_all is_probe (new_calls w (snd (generateUniqueShareId w)))
   \<and> \<not> list_ex is_write (new_calls w (snd (generateUniqueShareId w)))
   \<and> (fst (generateUniqueShareId w) = Inr t \<longrightarrow> \<not> conflict (snd (generateUniqueShareId w)) t)"
proof -
  have "fst (generateUniqueShareId w) = Inr t \<longrightarrow> \<not> conflict (snd (generateUniqueShareId w)) t"
    using gen_Inr_absent(1) [of w t] conflict_frame [of "snd (generateUniqueShareId w)" w] by simp
  then show ?thesis
    by (simp add: new_calls_gen all_probe_map)
qed

lemma demo_alloc: "fst (generateUniqueShareId demo_world) = Inr ''a7a7a7a7a7a7a7a7''"
  by code_simp

theorem allocator_read_only_witness:
  "entries (snd (generateUniqueShareId demo_world)) = [demo_entry]
   \<and> \<not> conflict (snd (generateUniqueShareId demo_world)) ''a7a7a7a7a7a7a7a7''"
  using allocator_read_only [of demo_world "''a7a7a7a7a7a7a7a7''"] demo_alloc
  by (simp add: demo_world_def)

section \<open>Reading entries\<close>

lemma find_distinct:
  "distinct (map f xs) \<Longrightarrow> e \<in> set xs \<Longrightarrow> find (\<lambda>y. f y = f e) xs = Some e"
  by (induction xs) (auto simp: image_iff)

lemma find_by_id:
  "distinct (map entry_id es) \<Longrightarrow> e \<in> set es \<Longrightarrow> entry_id e = i \<Longrightarrow>
   find (\<lambda>y. entry_id y = i) es = Some e"
  using find_distinct [of entry_id es e] by simp

lemma find_where:
  assumes "distinct (map entry_id es)" "e \<in> set es" "entry_id e = i" "userId e = u"
  shows "find (where_id_userId i u) es = Some e"
proof -
  from assms(1,2) have "find (where_id_userId i u) es = find (\<lambda>y. entry_id y = i) es"
    using assms(3,4)
    by (induction es) (auto simp: where_id_userId_def image_iff)
  then show ?thesis using find_by_id [OF assms(1-3)] by simp
qed

lemma find_mapped: "find P (map f xs) = map_option f (find (\<lambda>x. P (f x)) xs)"
  by (induction xs) simp_all

lemma where_live_fun:
  "where_id_userId_live i u = (\<lambda>e. entry_id e = i \<and> userId e = u \<and> \<not> isDeleted e)"
  by (rule ext) (simp add: where_id_userId_live_def)

lemma find_SomeD: "find P xs = Some x \<Longrightarrow> x \<in> set xs \<and> P x"
  by (auto simp: find_Some_iff)

text \<open>
  Claim C9. In a store whose identifiers are distinct, \<^verbatim>\<open>GET /public/entries/:id\<close> answers
  200 with the entry \<open>e\<close> exactly when \<open>e\<close> is the stored entry whose \<open>id\<close> is the requested
  one and \<open>e\<close> is public; it succeeds exactly when such an entry exists and answers 404
  otherwise; the store is left as it was. No read consults the share tokens: under any other
  assignment of \<open>publicShareId\<close> values the public read and the owner's read by id give the
  same answer, carrying the same entry with its other token.
\<close>

theorem public_read_keyed_by_id:
  assumes "distinct (map entry_id (entries w))"
  shows "(fst (get_public_entry x w) = Status 200 (EntryBody e)
            \<longleftrightarrow> e \<in> set (entries w) \<and> entry_id e = x \<and> isPublic e)
       \<and> (is_success (fst (get_public_entry x w))
            \<longleftrightarrow> (\<exists>e \<in> set (entries w). entry_id e = x \<and> isPublic e))
       \<and> (\<not> is_success (fst (get_public_entry x w))
            \<longrightarrow> fst (get_public_entry x w) = Status 404 (Message ''Entry not found or is private.''))
       \<and> fst (get_public_entry x (w\<lparr>entries := map (retoken g) (entries w)\<rparr>))
           = map_entry (retoken g) (fst (get_public_entry x w))
       \<and> fst (get_entry uid x (w\<lparr>entries := map (retoken g) (entries w)\<rparr>))
           = map_entry (retoken g) (fst (get_entry uid x w))
       \<and> entries (snd (get_public_entry x w)) = entries w"
proof -
  let ?f = "find (\<lambda>y. entry_id y = x) (entries w)"
  have a: "fst (get_public_entry x w) = Status 200 (EntryBody e)
            \<longleftrightarrow> e \<in> set (entries w) \<and> entry_id e = x \<and> isPublic e"
  proof
    assume "fst (get_public_entry x w) = Status 200 (EntryBody e)"
    then have "?f = Some e \<and> isPublic e"
      by (auto simp: get_public_entry_def entry_findUnique_id_def split: option.splits if_splits)
    then show "e \<in> set (entries w) \<and> entry_id e = x \<and> isPublic e"
      using find_SomeD [of "\<lambda>y. entry_id y = x" "entries w" e] by simp
  next
    assume "e \<in> set (entries w) \<and> entry_id e = x \<and> isPublic e"
    then have "?f = Some e" "isPublic e" using find_by_id [OF assms, of e x] by simp_all
    then show "fst (get_public_entry x w) = Status 200 (EntryBody e)"
      by (simp add: get_public_entry_def entry_findUnique_id_def)
  qed
  have b: "is_success (fst (get_public_entry x w))
            \<longleftrightarrow> (\<exists>e \<in> set (entries w). entry_id e = x \<and> isPublic e)"
  proof
    assume "is_success (fst (get_public_entry x w))"
    then obtain e' where "?f = Some e'" "isPublic e'"
      by (auto simp: get_public_entry_def entry_findUnique_id_def split: option.splits if_splits)
    then show "\<exists>e \<in> set (entries w). entry_id e = x \<and> isPublic e"
      using find_SomeD [of "\<lambda>y. entry_id y = x" "entries w" e'] by auto
  next
    assume "\<exists>e \<in> set (entries w). entry_id e = x \<and> isPublic e"
    then obtain e' where "e' \<in> set (entries w)" "entry_id e' = x" "isPublic e'" by auto
    then have "?f = Some e'" "isPublic e'" using find_by_id [OF assms, of e' x] by simp_all
    then show "is_success (fst (get_public_entry x w))"
      by (simp add: get_public_entry_def entry_findUnique_id_def)
  qed
  have c: "\<not> is_success (fst (get_public_entry x w))
            \<longrightarrow> fst (get_public_entry x w) = Status 404 (Message ''Entry not found or is private.'')"
    by (auto simp: get_public_entry_def entry_findUnique_id_def split: option.splits)
  have d: "fst (get_public_entry x (w\<lparr>entries := map (retoken g) (entries w)\<rparr>))
           = map_entry (retoken g) (fst (get_public_entry x w))"
    by (auto simp: get_public_entry_def entry_findUnique_id_def find_mapped retoken_def
        split: option.splits)
  have e: "fst (get_entry uid x (w\<lparr>entries := map (retoken g) (entries w)\<rparr>))
           = map_entry (retoken g) (fst (get_entry uid x w))"
    by (auto simp: get_entry_def entry_findFirst_def find_mapped retoken_def
        where_live_fun split: option.splits)
  have f: "entries (snd (get_public_entry x w)) = entries w"
    by (auto simp: get_public_entry_def entry_findUnique_id_def split: option.splits)
  from a b c d e f show ?thesis by blast
qed

theorem public_read_keyed_by_id_witness:
  "fst (get_public_entry ''e1'' demo_world) = Status 200 (EntryBody demo_entry)
   \<and> fst (get_public_entry ''0000000000000000'' demo_world)
       = Status 404 (Message ''Entry not found or is private.'')"
  using public_read_keyed_by_id [of demo_world "''e1''" demo_entry "\<lambda>e. None" "''u1''"]
    public_read_keyed_by_id [of demo_world "''0000000000000000''" demo_entry "\<lambda>e. None" "''u1''"]
  by (simp add: demo_world_def demo_entry_def)

section \<open>Updating an entry\<close>

lemma gen_fst_frame:
  "entries w' = entries w \<Longrightarrow> rng w' = rng w \<Longrightarrow>
   fst (generateUniqueShareId w') = fst (generateUniqueShareId w)"
  by (simp add: gen_result conflict_frame [of w' w] draws_frame [of w' w])

lemma gen_fst_log [simp]:
  "fst (generateUniqueShareId (log_call c w)) = fst (generateUniqueShareId w)"
  by (rule gen_fst_frame) simp_all

lemma apply_patch_id [simp]: "entry_id (apply_patch d e) = entry_id e"
  by (simp add: apply_patch_def)

lemma entry_update_entries [simp]:
  "entries (snd (entry_update i d w)) = map (patch_row i d) (entries w)"
proof (cases "find (\<lambda>e. entry_id e = i) (entries w)")
  case None
  then have "\<forall>x \<in> set (entries w). entry_id x \<noteq> i" by (simp add: find_None_iff)
  then have "map (patch_row i d) (entries w) = entries w"
    by (intro map_idI) (simp add: patch_row_def)
  with None show ?thesis by (simp add: entry_update_def)
next
  case (Some e)
  then show ?thesis by (simp add: entry_update_def patch_row_def [abs_def])
qed

lemma entry_update_frame [simp]:
  "categories (snd (entry_update i d w)) = categories w"
  "rng (snd (entry_update i d w)) = rng w"
  "calls (snd (entry_update i d w)) = calls w @ [EntryUpdate i]"
  by (simp_all add: entry_update_def split: option.splits)

lemma update_note_result:
  assumes f1: "find (where_id_userId i uid) (entries w) = Some ex"
    and f2: "find (\<lambda>y. entry_id y = i) (entries w) = Some ex"
    and cat: "\<forall>c. n_categoryId b = Some c \<longrightarrow> c \<in> set (categories w)"
  shows "\<not> (n_isPublic b = Some True \<and> \<not> truthy_str (publicShareId ex)) \<Longrightarrow>
           fst (update_note uid i b w) = Status 200 (note_of (apply_patch (note_patch b None) ex))
           \<and> entries (snd (update_note uid i b w)) = map (patch_row i (note_patch b None)) (entries w)"
    and "n_isPublic b = Some True \<Longrightarrow> \<not> truthy_str (publicShareId ex) \<Longrightarrow>
           fst (generateUniqueShareId w) = Inr t \<Longrightarrow>
           fst (update_note uid i b w) = Status 200 (note_of (apply_patch (note_patch b (Some t)) ex))
           \<and> entries (snd (update_note uid i b w)) = map (patch_row i (note_patch b (Some t))) (entries w)"
proof -
  assume "\<not> (n_isPublic b = Some True \<and> \<not> truthy_str (publicShareId ex))"
  then show "fst (update_note uid i b w) = Status 200 (note_of (apply_patch (note_patch b None) ex))
           \<and> entries (snd (update_note uid i b w)) = map (patch_row i (note_patch b None)) (entries w)"
    using f1 f2 cat
    by (cases "n_categoryId b"; cases "n_isPublic b")
       (auto simp: update_note_def entry_findFirst_def category_findUnique_def Let_def
          entry_update_def note_patch_def no_patch_def share_part_def note_of_def
          patch_row_def [abs_def])
next
  assume "n_isPublic b = Some True" "\<not> truthy_str (publicShareId ex)"
    "fst (generateUniqueShareId w) = Inr t"
  then show "fst (update_note uid i b w) = Status 200 (note_of (apply_patch (note_patch b (Some t)) ex))
           \<and> entries (snd (update_note uid i b w)) = map (patch_row i (note_patch b (Some t))) (entries w)"
    using f1 f2 cat
    by (cases "n_categoryId b")
       (auto simp: update_note_def entry_findFirst_def category_findUnique_def Let_def
          case_prod_beta entry_update_def note_patch_def no_patch_def share_part_def note_of_def
          patch_row_def [abs_def])
qed


lemma update_entry_result:
  assumes f1: "find (where_id_userId i uid) (entries w) = Some ex"
    and f2: "find (\<lambda>y. entry_id y = i) (entries w) = Some ex"
    and live: "\<not> isDeleted ex"
    and cat: "\<forall>c. up_categoryId b = Some c \<longrightarrow> c \<in> set (categories w)"
  shows "up_isPublic b \<noteq> Some True \<Longrightarrow>
           fst (update_entry uid i b w) = Status 200 (EntryBody (apply_patch (update_patch b None) ex))
           \<and> entries (snd (update_entry uid i b w)) = map (patch_row i (update_patch b None)) (entries w)"
    and "up_isPublic b = Some True \<Longrightarrow> fst (generateUniqueShareId w) = Inr t \<Longrightarrow>
           fst (update_entry uid i b w) = Status 200 (EntryBody (apply_patch (update_patch b (Some t)) ex))
           \<and> entries (snd (update_entry uid i b w)) = map (patch_row i (update_patch b (Some t))) (entries w)"
proof -
  assume "up_isPublic b \<noteq> Some True"
  then show "fst (update_entry uid i b w) = Status 200 (EntryBody (apply_patch (update_patch b None) ex))
           \<and> entries (snd (update_entry uid i b w)) = map (patch_row i (update_patch b None)) (entries w)"
    using f1 f2 live cat
    by (cases "up_categoryId b"; cases "up_isPublic b")
       (auto simp: update_entry_def update_and_return_def entry_findFirst_def
          category_findUnique_def Let_def entry_update_def update_patch_def no_patch_def
          share_part_def patch_row_def [abs_def])
next
  assume "up_isPublic b = Some True" "fst (generateUniqueShareId w) = Inr t"
  then show "fst (update_entry uid i b w) = Status 200 (EntryBody (apply_patch (update_patch b (Some t)) ex))
           \<and> entries (snd (update_entry uid i b w)) = map (patch_row i (update_patch b (Some t))) (entries w)"
    using f1 f2 live cat
    by (cases "up_categoryId b")
       (auto simp: update_entry_def update_and_return_def entry_findFirst_def
          category_findUnique_def Let_def case_prod_beta entry_update_def update_patch_def
          no_patch_def share_part_def patch_row_def [abs_def])
qed


lemma find_patch_row:
  "find (\<lambda>y. entry_id y = i) es = Some ex \<Longrightarrow>
   find (\<lambda>y. entry_id y = i) (map (patch_row i d) es) = Some (apply_patch d ex)"
  by (induction es) (auto simp: patch_row_def split: if_splits)

lemma gen_cases:
  obtains (fail) "exhausted w" "fst (generateUniqueShareId w) = Inl Exhausted"
  | (ok) t where "\<not> exhausted w" "fst (generateUniqueShareId w) = Inr t" "\<not> conflict w t" "hex_token t"
proof (cases "fst (generateUniqueShareId w)")
  case (Inl e)
  then show ?thesis using fail by (simp add: gen_Inl_iff)
next
  case (Inr t)
  moreover have "\<not> exhausted w" using Inr gen_Inl_iff [of w Exhausted] by simp
  ultimately show ?thesis using ok gen_Inr_absent [OF Inr] by simp
qed

lemma update_note_never_not_found:
  "find (where_id_userId i uid) (entries w) = Some ex \<Longrightarrow>
   fst (update_note uid i b w) \<noteq> Status 404 (Message ''Note not found.'')"
  by (auto simp: update_note_def entry_findFirst_def category_findUnique_def Let_def
      case_prod_beta split: option.splits sum.splits if_splits)

lemma update_entry_deleted:
  "find (where_id_userId i uid) (entries w) = Some ex \<Longrightarrow> isDeleted ex \<Longrightarrow>
   update_entry uid i b w = (Status 404 (Message ''Entry not found.''), log_call EntryFindFirst w)"
  by (simp add: update_entry_def entry_findFirst_def)

lemma snd_case_sum [simp]: "snd (case x of Inl a \<Rightarrow> (f a, w) | Inr b \<Rightarrow> (g b, w)) = w"
  by (cases x) simp_all

lemma conflict_reflag [simp]:
  "conflict (w\<lparr>entries := map (reflag g) (entries w)\<rparr>) = conflict w"
  by (rule ext) (auto simp: conflict_iff reflag_def)

lemma gen_fst_reflag [simp]:
  "fst (generateUniqueShareId (w\<lparr>entries := map (reflag g) (entries w)\<rparr>))
     = fst (generateUniqueShareId w)"
proof -
  have "draws MAX_ATTEMPTS (w\<lparr>entries := map (reflag g) (entries w)\<rparr>) = draws MAX_ATTEMPTS w"
    by (rule draws_frame) simp
  then show ?thesis by (simp add: gen_result)
qed

lemma where_reflag [simp]: "where_id_userId i u (reflag g e) = where_id_userId i u e"
  by (simp add: where_id_userId_def reflag_def)

lemma entry_update_fst:
  "fst (entry_update i d w) =
     (case find (\<lambda>e. entry_id e = i) (entries w) of
        None \<Rightarrow> Inl record_not_found
      | Some e \<Rightarrow> Inr (apply_patch d e))"
  by (simp add: entry_update_def split: option.split)

lemma reflag_fields [simp]:
  "entry_id (reflag g e) = entry_id e"
  "publicShareId (reflag g e) = publicShareId e"
  "publicShareId (apply_patch d (reflag g e)) = publicShareId (apply_patch d e)"
  "title (apply_patch d (reflag g e)) = title (apply_patch d e)"
  "synopsis (apply_patch d (reflag g e)) = synopsis (apply_patch d e)"
  "content (apply_patch d (reflag g e)) = content (apply_patch d e)"
  by (simp_all add: reflag_def apply_patch_def)

lemma update_note_ignores_flag:
  "fst (update_note uid i b (w\<lparr>entries := map (reflag g) (entries w)\<rparr>))
     = fst (update_note uid i b w)"
  by (cases "n_categoryId b"; cases "n_isPublic b"; cases "fst (generateUniqueShareId w)";
      cases "find (\<lambda>e. entry_id e = i) (entries w)")
     (simp_all add: update_note_def entry_findFirst_def category_findUnique_def find_mapped
        case_prod_beta Let_def entry_update_fst split: option.split)


lemma patch_row_reflag:
  "pt_isDeleted d = None \<Longrightarrow> patch_row i d (reflag g x) = reflag g (patch_row i d x)"
  by (simp add: patch_row_def reflag_def apply_patch_def nullish_def)

lemma update_note_commutes_flag:
  "entries (snd (update_note uid i b (w\<lparr>entries := map (reflag g) (entries w)\<rparr>)))
     = map (reflag g) (entries (snd (update_note uid i b w)))"
  by (cases "n_categoryId b"; cases "n_isPublic b"; cases "fst (generateUniqueShareId w)")
     (simp_all add: update_note_def entry_findFirst_def category_findUnique_def find_mapped
        case_prod_beta Let_def patch_row_reflag no_patch_def split: option.split)

text \<open>
  Claim C10. Let \<open>ex\<close> be an entry of the requesting user that is in the trash
  (\<open>isDeleted\<close>), in a store with distinct identifiers. \<^verbatim>\<open>PATCH /api/entries/:id\<close> answers
  404 \<open>Entry not found.\<close> and leaves the entries as they were. \<^verbatim>\<open>PATCH /api/notes/:id\<close>
  never answers \<open>Note not found.\<close>; when the request is otherwise in order (a category that
  is given exists, and a token that has to be allocated can be) it answers 200 with the
  updated entry, which is stored with the requested fields and is still in the trash.
  The flag is not read at all: under any other setting of the soft-delete flags the notes
  update gives the same answer and stores the same rows, each with its other flag.
\<close>

theorem notes_update_ignores_soft_delete:
  assumes "distinct (map entry_id (entries w))"
    and "ex \<in> set (entries w)" and "entry_id ex = i" and "userId ex = uid" and "isDeleted ex"
  shows "fst (update_entry uid i b w) = Status 404 (Message ''Entry not found.'')
       \<and> entries (snd (update_entry uid i b w)) = entries w
       \<and> fst (update_note uid i nb w) \<noteq> Status 404 (Message ''Note not found.'')
       \<and> ((\<forall>c. n_categoryId nb = Some c \<longrightarrow> c \<in> set (categories w))
          \<and> (n_isPublic nb = Some True \<and> \<not> truthy_str (publicShareId ex) \<longrightarrow> \<not> exhausted w)
          \<longrightarrow> (\<exists>e'. fst (update_note uid i nb w)
                       = Status 200 (NoteBody i (publicShareId e') (title e') (synopsis e') (content e'))
                   \<and> find (\<lambda>y. entry_id y = i) (entries (snd (update_note uid i nb w))) = Some e'
                   \<and> title e' = nullish (n_title nb) (title ex)
                   \<and> synopsis e' = nullish (n_synopsis nb) (synopsis ex)
                   \<and> content e' = nullish (n_content nb) (content ex)
                   \<and> categoryId e' = nullish (n_categoryId nb) (categoryId ex)
                   \<and> isPublic e' = nullish (n_isPublic nb) (isPublic ex)
                   \<and> isDeleted e'))
       \<and> fst (update_note uid i nb (w\<lparr>entries := map (reflag g) (entries w)\<rparr>))
           = fst (update_note uid i nb w)
       \<and> entries (snd (update_note uid i nb (w\<lparr>entries := map (reflag g) (entries w)\<rparr>)))
           = map (reflag g) (entries (snd (update_note uid i nb w)))"
proof -
  have f1: "find (where_id_userId i uid) (entries w) = Some ex"
    using assms(1-4) by (rule find_where)
  have f2: "find (\<lambda>y. entry_id y = i) (entries w) = Some ex"
    using assms(1-3) by (rule find_by_id)
  have a: "fst (update_entry uid i b w) = Status 404 (Message ''Entry not found.'')
       \<and> entries (snd (update_entry uid i b w)) = entries w"
    by (simp add: update_entry_deleted [OF f1 assms(5)])
  have b: "fst (update_note uid i nb w) \<noteq> Status 404 (Message ''Note not found.'')"
    using f1 by (rule update_note_never_not_found)
  have c: "\<exists>e'. fst (update_note uid i nb w)
                       = Status 200 (NoteBody i (publicShareId e') (title e') (synopsis e') (content e'))
                   \<and> find (\<lambda>y. entry_id y = i) (entries (snd (update_note uid i nb w))) = Some e'
                   \<and> title e' = nullish (n_title nb) (title ex)
                   \<and> synopsis e' = nullish (n_synopsis nb) (synopsis ex)
                   \<and> content e' = nullish (n_content nb) (content ex)
                   \<and> categoryId e' = nullish (n_categoryId nb) (categoryId ex)
                   \<and> isPublic e' = nullish (n_isPublic nb) (isPublic ex)
                   \<and> isDeleted e'"
    if cat: "\<forall>c. n_categoryId nb = Some c \<longrightarrow> c \<in> set (categories w)"
      and al: "n_isPublic nb = Some True \<and> \<not> truthy_str (publicShareId ex) \<longrightarrow> \<not> exhausted w"
  proof -
    have "\<exists>tok. fst (update_note uid i nb w) = Status 200 (note_of (apply_patch (note_patch nb tok) ex))
        \<and> entries (snd (update_note uid i nb w)) = map (patch_row i (note_patch nb tok)) (entries w)"
    proof (cases "n_isPublic nb = Some True \<and> \<not> truthy_str (publicShareId ex)")
      case False
      then show ?thesis using update_note_result(1) [OF f1 f2 cat] by blast
    next
      case True
      with al have "\<not> exhausted w" by simp
      then obtain t where "fst (generateUniqueShareId w) = Inr t" by (cases w rule: gen_cases) simp_all
      with True show ?thesis using update_note_result(2) [OF f1 f2 cat] by blast
    qed
    then obtain tok where r: "fst (update_note uid i nb w) = Status 200 (note_of (apply_patch (note_patch nb tok) ex))"
      and e: "entries (snd (update_note uid i nb w)) = map (patch_row i (note_patch nb tok)) (entries w)"
      by blast
    let ?e = "apply_patch (note_patch nb tok) ex"
    have "find (\<lambda>y. entry_id y = i) (entries (snd (update_note uid i nb w))) = Some ?e"
      unfolding e using f2 by (rule find_patch_row)
    moreover have "fst (update_note uid i nb w)
         = Status 200 (NoteBody i (publicShareId ?e) (title ?e) (synopsis ?e) (content ?e))"
      using r assms(3) by (simp add: note_of_def)
    moreover have "title ?e = nullish (n_title nb) (title ex)" "synopsis ?e = nullish (n_synopsis nb) (synopsis ex)"
      "content ?e = nullish (n_content nb) (content ex)" "categoryId ?e = nullish (n_categoryId nb) (categoryId ex)"
      "isPublic ?e = nullish (n_isPublic nb) (isPublic ex)" "isDeleted ?e"
      using assms(5) by (simp_all add: apply_patch_def note_patch_def nullish_def)
    ultimately show ?thesis by blast
  qed
  from a b c show ?thesis
    using update_note_ignores_flag [where uid = uid and i = i and b = nb and w = w and g = g]
      update_note_commutes_flag [where uid = uid and i = i and b = nb and w = w and g = g]
    by blast
qed

lemma trashed_facts:
  "distinct (map entry_id (entries trashed_world))"
  "demo_entry\<lparr>isDeleted := True\<rparr> \<in> set (entries trashed_world)"
  "entry_id (demo_entry\<lparr>isDeleted := True\<rparr>) = ''e1''"
  "userId (demo_entry\<lparr>isDeleted := True\<rparr>) = ''u1''"
  "isDeleted (demo_entry\<lparr>isDeleted := True\<rparr>)"
  by (simp_all add: trashed_world_def demo_entry_def)

theorem notes_update_ignores_soft_delete_witness:
  "fst (update_entry ''u1'' ''e1'' publish trashed_world) = Status 404 (Message ''Entry not found.'')
   \<and> (\<exists>e'. fst (update_note ''u1'' ''e1'' republish trashed_world)
              = Status 200 (NoteBody ''e1'' (publicShareId e') (title e') (synopsis e') (content e'))
          \<and> find (\<lambda>y. entry_id y = ''e1'') (entries (snd (update_note ''u1'' ''e1'' republish trashed_world)))
              = Some e'
          \<and> isPublic e' \<and> isDeleted e')"
proof -
  have "(\<forall>c. n_categoryId republish = Some c \<longrightarrow> c \<in> set (categories trashed_world))
      \<and> (n_isPublic republish = Some True
           \<and> \<not> truthy_str (publicShareId (demo_entry\<lparr>isDeleted := True\<rparr>))
         \<longrightarrow> \<not> exhausted trashed_world)"
    by (simp add: republish_def truthy_str_def demo_entry_def)
  moreover have "nullish (n_isPublic republish) (isPublic (demo_entry\<lparr>isDeleted := True\<rparr>))"
    by (simp add: republish_def nullish_def)
  ultimately show ?thesis
    using notes_update_ignores_soft_delete [OF trashed_facts, of publish republish] by auto
qed


lemma update_entry_success_conds:
  assumes "find (where_id_userId i uid) (entries w) = Some ex"
    and "is_success (fst (update_entry uid i b w))"
  shows "\<not> isDeleted ex" and "\<forall>c. up_categoryId b = Some c \<longrightarrow> c \<in> set (categories w)"
    and "up_isPublic b = Some True \<longrightarrow> \<not> exhausted w"
  using assms
  by (auto simp: update_entry_def entry_findFirst_def category_findUnique_def Let_def
      gen_exhausted split: option.splits if_splits)

text \<open>
  Claim C1, amended. Let \<open>ex\<close> be an entry of the requesting user whose \<open>publicShareId\<close> is
  \<open>t\<close>, in a store with distinct identifiers. A successful \<^verbatim>\<open>PATCH /api/entries/:id\<close> with
  \<open>isPublic = true\<close> stores and returns the entry with a newly allocated token \<open>t'\<close> that
  differs from \<open>t\<close>, was bound to no entry and is 16 hexadecimal characters.
  \<^verbatim>\<open>PATCH /api/notes/:id\<close> with \<open>isPublic = true\<close> and a valid category (if any) keeps a
  non-empty \<open>t\<close>: the entry is stored and returned with \<open>publicShareId = t\<close>, and the
  allocator is not called.
\<close>

theorem republish_token:
  assumes "distinct (map entry_id (entries w))"
    and "ex \<in> set (entries w)" and "entry_id ex = i" and "userId ex = uid"
    and "publicShareId ex = Some t"
  shows "(up_isPublic b = Some True \<and> is_success (fst (update_entry uid i b w))
          \<longrightarrow> (\<exists>e' t'. fst (update_entry uid i b w) = Status 200 (EntryBody e')
                  \<and> find (\<lambda>y. entry_id y = i) (entries (snd (update_entry uid i b w))) = Some e'
                  \<and> isPublic e' \<and> publicShareId e' = Some t'
                  \<and> t' \<noteq> t \<and> \<not> conflict w t' \<and> hex_token t'))
       \<and> (n_isPublic nb = Some True \<and> t \<noteq> []
            \<and> (\<forall>c. n_categoryId nb = Some c \<longrightarrow> c \<in> set (categories w))
          \<longrightarrow> (\<exists>e'. fst (update_note uid i nb w)
                        = Status 200 (NoteBody i (Some t) (title e') (synopsis e') (content e'))
                  \<and> find (\<lambda>y. entry_id y = i) (entries (snd (update_note uid i nb w))) = Some e'
                  \<and> isPublic e' \<and> publicShareId e' = Some t)
              \<and> \<not> list_ex is_probe (new_calls w (snd (update_note uid i nb w))))"
proof (intro conjI impI)
  have f1: "find (where_id_userId i uid) (entries w) = Some ex"
    using assms(1-4) by (rule find_where)
  have f2: "find (\<lambda>y. entry_id y = i) (entries w) = Some ex"
    using assms(1-3) by (rule find_by_id)
  {
    assume h: "up_isPublic b = Some True \<and> is_success (fst (update_entry uid i b w))"
    then have live: "\<not> isDeleted ex"
      and cat: "\<forall>c. up_categoryId b = Some c \<longrightarrow> c \<in> set (categories w)"
      and "\<not> exhausted w"
      using update_entry_success_conds [OF f1, of b] by simp_all
    then obtain t' where g: "fst (generateUniqueShareId w) = Inr t'"
      and fresh: "\<not> conflict w t'" and hex: "hex_token t'"
      by (cases w rule: gen_cases) simp_all
    let ?e = "apply_patch (update_patch b (Some t')) ex"
    from h g have r: "fst (update_entry uid i b w) = Status 200 (EntryBody ?e)"
      and e: "entries (snd (update_entry uid i b w)) = map (patch_row i (update_patch b (Some t'))) (entries w)"
      using update_entry_result(2) [OF f1 f2 live cat] by simp_all
    have "find (\<lambda>y. entry_id y = i) (entries (snd (update_entry uid i b w))) = Some ?e"
      unfolding e using f2 by (rule find_patch_row)
    moreover have "isPublic ?e" "publicShareId ?e = Some t'"
      using h by (simp_all add: apply_patch_def update_patch_def share_part_def nullish_def)
    moreover have "t' \<noteq> t"
      using fresh assms(2,5) by (auto simp: conflict_iff)
    ultimately show "\<exists>e' t'. fst (update_entry uid i b w) = Status 200 (EntryBody e')
                  \<and> find (\<lambda>y. entry_id y = i) (entries (snd (update_entry uid i b w))) = Some e'
                  \<and> isPublic e' \<and> publicShareId e' = Some t'
                  \<and> t' \<noteq> t \<and> \<not> conflict w t' \<and> hex_token t'"
      using r fresh hex by blast
  }
  {
    assume h: "n_isPublic nb = Some True \<and> t \<noteq> []
            \<and> (\<forall>c. n_categoryId nb = Some c \<longrightarrow> c \<in> set (categories w))"
    then have cat: "\<forall>c. n_categoryId nb = Some c \<longrightarrow> c \<in> set (categories w)" by simp
    from h assms(5) have keep: "\<not> (n_isPublic nb = Some True \<and> \<not> truthy_str (publicShareId ex))"
      by (simp add: truthy_str_def)
    let ?e = "apply_patch (note_patch nb None) ex"
    have r: "fst (update_note uid i nb w) = Status 200 (note_of ?e)"
      and e: "entries (snd (update_note uid i nb w)) = map (patch_row i (note_patch nb None)) (entries w)"
      using update_note_result(1) [OF f1 f2 cat keep] by simp_all
    have "find (\<lambda>y. entry_id y = i) (entries (snd (update_note uid i nb w))) = Some ?e"
      unfolding e using f2 by (rule find_patch_row)
    moreover have "isPublic ?e" "publicShareId ?e = Some t"
      using h assms(5) by (simp_all add: apply_patch_def note_patch_def share_part_def nullish_def)
    moreover have "fst (update_note uid i nb w)
                        = Status 200 (NoteBody i (Some t) (title ?e) (synopsis ?e) (content ?e))"
      using r assms(3) \<open>publicShareId ?e = Some t\<close> by (simp add: note_of_def)
    ultimately show "\<exists>e'. fst (update_note uid i nb w)
                        = Status 200 (NoteBody i (Some t) (title e') (synopsis e') (content e'))
                  \<and> find (\<lambda>y. entry_id y = i) (entries (snd (update_note uid i nb w))) = Some e'
                  \<and> isPublic e' \<and> publicShareId e' = Some t"
      by blast
    show "\<not> list_ex is_probe (new_calls w (snd (update_note uid i nb w)))"
      using f1 h keep
      by (cases "n_categoryId nb")
         (auto simp: update_note_def entry_findFirst_def category_findUnique_def Let_def
            entry_update_def new_calls_def split: option.splits)
  }
qed

lemma demo_facts:
  "distinct (map entry_id (entries demo_world))"
  "demo_entry \<in> set (entries demo_world)"
  "entry_id demo_entry = ''e1''"
  "userId demo_entry = ''u1''"
  "publicShareId demo_entry = Some ''0000000000000000''"
  by (simp_all add: demo_world_def demo_entry_def)

lemma demo_publish_success: "is_success (fst (update_entry ''u1'' ''e1'' publish demo_world))"
  by code_simp

theorem republish_token_witness:
  "(\<exists>e' t'. fst (update_entry ''u1'' ''e1'' publish demo_world) = Status 200 (EntryBody e')
        \<and> find (\<lambda>y. entry_id y = ''e1'') (entries (snd (update_entry ''u1'' ''e1'' publish demo_world)))
            = Some e'
        \<and> isPublic e' \<and> publicShareId e' = Some t'
        \<and> t' \<noteq> ''0000000000000000'' \<and> \<not> conflict demo_world t' \<and> hex_token t')
   \<and> (\<exists>e'. fst (update_note ''u1'' ''e1'' republish demo_world)
              = Status 200 (NoteBody ''e1'' (Some ''0000000000000000'') (title e') (synopsis e') (content e'))
          \<and> find (\<lambda>y. entry_id y = ''e1'') (entries (snd (update_note ''u1'' ''e1'' republish demo_world)))
              = Some e'
          \<and> isPublic e' \<and> publicShareId e' = Some ''0000000000000000'')
   \<and> \<not> list_ex is_probe (new_calls demo_world (snd (update_note ''u1'' ''e1'' republish demo_world)))"
proof -
  have "up_isPublic publish = Some True" by (simp add: publish_def)
  moreover have "n_isPublic republish = Some True" "n_categoryId republish = None"
    by (simp_all add: republish_def)
  ultimately show ?thesis
    using republish_token [OF demo_facts, of publish republish] demo_publish_success by simp
qed

text \<open>
  The claim C1 as stated fails for the notes update: the entry shared under \<open>abc123\<close> is
  public, the request sets \<open>isPublic\<close> to true, and the token stored afterwards is \<open>abc123\<close>.
\<close>

theorem notes_update_keeps_token:
  "isPublic (hd (entries shared_world))
   \<and> publicShareId (hd (entries shared_world)) = Some ''abc123''
   \<and> n_isPublic republish = Some True
   \<and> fst (update_note ''u1'' ''e1'' republish shared_world)
       = Status 200 (NoteBody ''e1'' (Some ''abc123'') ''Title'' ''Synopsis'' ''Content'')
   \<and> map publicShareId (entries (snd (update_note ''u1'' ''e1'' republish shared_world)))
       = [Some ''abc123'']"
  by code_simp

section \<open>Invariants of the store\<close>

lemma patch_row_id [simp]: "entry_id (patch_row i d x) = entry_id x"
  by (simp add: patch_row_def)

lemma store_inv_patch:
  assumes "store_inv es" "good_patch es i d"
  shows "store_inv (map (patch_row i d) es)"
proof -
  have 1: "distinct (map entry_id (map (patch_row i d) es))"
    using assms(1) by (simp add: store_inv_def comp_def)
  have 2: "list_all share_inv (map (patch_row i d) es)"
    using assms by (auto simp: store_inv_def good_patch_def list_all_iff patch_row_def)
  have 3: "tokens_unique (map (patch_row i d) es)"
    unfolding tokens_unique_def
  proof (intro ballI impI)
    fix e e'
    assume "e \<in> set (map (patch_row i d) es)" "e' \<in> set (map (patch_row i d) es)"
      and eq: "publicShareId e \<noteq> None \<and> publicShareId e = publicShareId e'"
    then obtain x y where x: "x \<in> set es" "e = patch_row i d x" and y: "y \<in> set es" "e' = patch_row i d y"
      unfolding set_map by blast
    from assms(1) have tu: "\<And>a b. a \<in> set es \<Longrightarrow> b \<in> set es \<Longrightarrow> publicShareId a \<noteq> None \<Longrightarrow>
        publicShareId a = publicShareId b \<Longrightarrow> entry_id a = entry_id b"
      unfolding store_inv_def tokens_unique_def by blast
    have "entry_id x = entry_id y"
    proof (cases "entry_id x = i"; cases "entry_id y = i")
      assume "entry_id x = i" "entry_id y = i"
      then show ?thesis by simp
    next
      assume a: "entry_id x = i" "entry_id y \<noteq> i"
      then have px: "patch_row i d x = apply_patch d x" "patch_row i d y = y"
        by (simp_all add: patch_row_def)
      from eq have t: "publicShareId (apply_patch d x) \<noteq> None"
        "publicShareId (apply_patch d x) = publicShareId y"
        unfolding x(2) y(2) px by blast+
      from assms(2) a(1) x(1) have "publicShareId (apply_patch d x) = publicShareId x
           \<or> publicShareId (apply_patch d x) = None
           \<or> (\<forall>y \<in> set es. publicShareId y \<noteq> publicShareId (apply_patch d x))"
        by (simp add: good_patch_def)
      with t y(1) have "publicShareId (apply_patch d x) = publicShareId x" by metis
      with t show ?thesis using tu [OF x(1) y(1)] by simp
    next
      assume a: "entry_id x \<noteq> i" "entry_id y = i"
      then have px: "patch_row i d x = x" "patch_row i d y = apply_patch d y"
        by (simp_all add: patch_row_def)
      from eq have t: "publicShareId (apply_patch d y) \<noteq> None"
        "publicShareId (apply_patch d y) = publicShareId x"
        unfolding x(2) y(2) px by metis+
      from assms(2) a(2) y(1) have "publicShareId (apply_patch d y) = publicShareId y
           \<or> publicShareId (apply_patch d y) = None
           \<or> (\<forall>z \<in> set es. publicShareId z \<noteq> publicShareId (apply_patch d y))"
        by (simp add: good_patch_def)
      with t x(1) have "publicShareId (apply_patch d y) = publicShareId y" by metis
      with t show ?thesis using tu [OF y(1) x(1)] by simp
    next
      assume a: "entry_id x \<noteq> i" "entry_id y \<noteq> i"
      then have px: "patch_row i d x = x" "patch_row i d y = y"
        by (simp_all add: patch_row_def)
      from eq show ?thesis using tu [OF x(1) y(1)] unfolding x(2) y(2) px by blast
    qed
    then show "entry_id e = entry_id e'" using x y by simp
  qed
  from 1 2 3 show ?thesis by (simp add: store_inv_def)
qed

lemma store_inv_append:
  assumes "store_inv es" "entry_id e \<notin> set (map entry_id es)" "share_inv e"
    and "publicShareId e = None \<or> (\<forall>y \<in> set es. publicShareId y \<noteq> publicShareId e)"
  shows "store_inv (es @ [e])"
proof -
  have 1: "distinct (map entry_id (es @ [e]))"
    using assms(1,2) by (simp add: store_inv_def)
  have 2: "list_all share_inv (es @ [e])"
    using assms(1,3) by (simp add: store_inv_def)
  from assms(1) have tu: "\<And>a b. a \<in> set es \<Longrightarrow> b \<in> set es \<Longrightarrow> publicShareId a \<noteq> None \<Longrightarrow>
        publicShareId a = publicShareId b \<Longrightarrow> entry_id a = entry_id b"
    unfolding store_inv_def tokens_unique_def by blast
  have 3: "tokens_unique (es @ [e])"
    unfolding tokens_unique_def
  proof (intro ballI impI)
    fix a b
    assume a: "a \<in> set (es @ [e])" and b: "b \<in> set (es @ [e])"
      and eq: "publicShareId a \<noteq> None \<and> publicShareId a = publicShareId b"
    show "entry_id a = entry_id b"
    proof (cases "a = e"; cases "b = e")
      assume "a = e" "b = e" then show ?thesis by simp
    next
      assume "a = e" "b \<noteq> e"
      with b have "b \<in> set es" by simp
      with assms(4) eq \<open>a = e\<close> show ?thesis by metis
    next
      assume "a \<noteq> e" "b = e"
      with a have "a \<in> set es" by simp
      with assms(4) eq \<open>b = e\<close> show ?thesis by metis
    next
      assume "a \<noteq> e" "b \<noteq> e"
      with a b have "a \<in> set es" "b \<in> set es" by simp_all
      then show ?thesis using tu [of a b] eq by blast
    qed
  qed
  from 1 2 3 show ?thesis by (simp add: store_inv_def)
qed

lemma store_inv_filter: "store_inv es \<Longrightarrow> store_inv (filter P es)"
  unfolding store_inv_def tokens_unique_def list_all_iff
  by (simp add: distinct_map_filter) blast


lemma good_patch_plain:
  "list_all share_inv es \<Longrightarrow> pt_isPublic d = None \<Longrightarrow> pt_publicShareId d = None \<Longrightarrow>
   good_patch es i d"
  by (simp add: good_patch_def apply_patch_def share_inv_def nullish_def list_all_iff)

lemma good_patch_private:
  "pt_isPublic d = Some False \<Longrightarrow> pt_publicShareId d = Some None \<Longrightarrow> good_patch es i d"
  by (simp add: good_patch_def apply_patch_def share_inv_def nullish_def)

lemma good_patch_fresh:
  "pt_isPublic d = Some True \<Longrightarrow> pt_publicShareId d = Some (Some t) \<Longrightarrow>
   \<forall>y \<in> set es. publicShareId y \<noteq> Some t \<Longrightarrow> good_patch es i d"
  by (simp add: good_patch_def apply_patch_def share_inv_def nullish_def)

lemma good_patch_keep:
  assumes "distinct (map entry_id es)" "find (where_id_userId i uid) es = Some ex"
    and "truthy_str (publicShareId ex)" "pt_isPublic d = Some True" "pt_publicShareId d = None"
  shows "good_patch es i d"
  unfolding good_patch_def
proof (intro ballI impI)
  fix x assume x: "x \<in> set es" "entry_id x = i"
  from find_SomeD [OF assms(2)] have ex: "ex \<in> set es" "entry_id ex = i"
    by (simp_all add: where_id_userId_def)
  from assms(1) have "inj_on entry_id (set es)" by (simp add: distinct_map)
  with x ex have "x = ex" by (auto dest: inj_onD)
  with assms(3-5) show "share_inv (apply_patch d x)
        \<and> (publicShareId (apply_patch d x) = publicShareId x
           \<or> publicShareId (apply_patch d x) = None
           \<or> (\<forall>y \<in> set es. publicShareId y \<noteq> publicShareId (apply_patch d x)))"
    by (auto simp: apply_patch_def share_inv_def nullish_def truthy_str_def split: option.splits)
qed

lemma gen_Inr_fresh:
  "fst (generateUniqueShareId w) = Inr t \<Longrightarrow> \<forall>y \<in> set (entries w). publicShareId y \<noteq> Some t"
  using gen_Inr_absent(1) [of w t] by (simp add: conflict_iff)

lemma update_and_return_entries [simp]:
  "entries (snd (update_and_return i d w)) = map (patch_row i d) (entries w)"
proof (cases "entry_update i d w")
  case (Pair r w')
  with entry_update_entries [of i d w] show ?thesis
    by (cases r) (simp_all add: update_and_return_def)
qed

lemma store_inv_patch_ok:
  assumes "store_inv es" "patch_ok es i uid d"
  shows "store_inv (map (patch_row i d) es)"
proof -
  from assms(1) have s: "list_all share_inv es" and d: "distinct (map entry_id es)"
    by (simp_all add: store_inv_def)
  have "good_patch es i d"
  proof (cases "pt_isPublic d")
    case None
    with assms(2) show ?thesis by (intro good_patch_plain s) (simp_all add: patch_ok_def)
  next
    case (Some pub)
    show ?thesis
    proof (cases pub)
      case False
      with Some assms(2) show ?thesis by (intro good_patch_private) (simp_all add: patch_ok_def)
    next
      case True
      show ?thesis
      proof (cases "pt_publicShareId d")
        case None
        with Some True assms(2) obtain ex where "find (where_id_userId i uid) es = Some ex"
          "truthy_str (publicShareId ex)"
          by (auto simp: patch_ok_def split: option.splits)
        then show ?thesis using Some True None by (intro good_patch_keep [OF d]) simp_all
      next
        case (Some tok)
        with \<open>pt_isPublic d = Some pub\<close> True assms(2) obtain t where "tok = Some t"
          "\<forall>y \<in> set es. publicShareId y \<noteq> Some t"
          by (cases tok) (simp_all add: patch_ok_def)
        then show ?thesis using \<open>pt_isPublic d = Some pub\<close> True Some
          by (intro good_patch_fresh [of d t]) simp_all
      qed
    qed
  qed
  with assms(1) show ?thesis by (rule store_inv_patch)
qed

lemma update_entry_inv:
  assumes "store_inv (entries w)"
  shows "store_inv (entries (snd (update_entry uid i b w)))"
  using assms
  by (auto simp: update_entry_def entry_findFirst_def category_findUnique_def Let_def
      case_prod_beta no_patch_def patch_ok_def
      split: option.splits sum.splits
      intro!: store_inv_patch_ok [where uid = uid]
      dest: gen_Inr_fresh)

lemma update_note_inv:
  assumes "store_inv (entries w)"
  shows "store_inv (entries (snd (update_note uid i b w)))"
proof (cases "find (where_id_userId i uid) (entries w)")
  case None
  with assms show ?thesis by (simp add: update_note_def entry_findFirst_def)
next
  case (Some ex)
  show ?thesis
  proof (cases "\<forall>c. n_categoryId b = Some c \<longrightarrow> c \<in> set (categories w)")
    case False
    with Some assms show ?thesis
      by (auto simp: update_note_def entry_findFirst_def category_findUnique_def)
  next
    case cat: True
    have k: "store_inv (map (patch_row i d) (entries w))" if "patch_ok (entries w) i uid d" for d
      using assms that by (rule store_inv_patch_ok)
    show ?thesis
    proof (cases "n_isPublic b")
      case None
      with Some cat show ?thesis
        by (cases "n_categoryId b")
           (simp_all add: update_note_def entry_findFirst_def category_findUnique_def Let_def
              case_prod_beta k patch_ok_def no_patch_def)
    next
      case pub: (Some p)
      show ?thesis
      proof (cases "p \<and> \<not> truthy_str (publicShareId ex)")
        case False
        with Some cat pub show ?thesis
          by (cases "n_categoryId b"; cases p)
             (simp_all add: update_note_def entry_findFirst_def category_findUnique_def Let_def
                case_prod_beta k patch_ok_def no_patch_def)
      next
        case True
        show ?thesis
        proof (cases "fst (generateUniqueShareId w)")
          case (Inl e)
          with Some cat pub True assms show ?thesis
            by (cases "n_categoryId b")
               (simp_all add: update_note_def entry_findFirst_def category_findUnique_def Let_def
                  case_prod_beta)
        next
          case (Inr t)
          then have "\<forall>y \<in> set (entries w). publicShareId y \<noteq> Some t" by (rule gen_Inr_fresh)
          with Some cat pub True Inr show ?thesis
            by (cases "n_categoryId b")
               (simp_all add: update_note_def entry_findFirst_def category_findUnique_def Let_def
                  case_prod_beta k patch_ok_def no_patch_def)
        qed
      qed
    qed
  qed
qed


lemma restore_entry_inv:
  assumes "store_inv (entries w)"
  shows "store_inv (entries (snd (restore_entry uid i w)))"
proof -
  have "store_inv (map (patch_row i (no_patch\<lparr>pt_isDeleted := Some False\<rparr>)) (entries w))"
    using assms by (rule store_inv_patch_ok [where uid = uid]) (simp add: patch_ok_def no_patch_def)
  with assms show ?thesis
    by (simp add: restore_entry_def entry_findFirst_def split: option.splits)
qed

lemma delete_entry_inv:
  assumes "store_inv (entries w)"
  shows "store_inv (entries (snd (delete_entry uid i w)))"
proof -
  have "store_inv (map (patch_row i (no_patch\<lparr>pt_isDeleted := Some True\<rparr>)) (entries w))"
    using assms by (rule store_inv_patch_ok [where uid = uid]) (simp add: patch_ok_def no_patch_def)
  with assms show ?thesis
    by (simp add: delete_entry_def entry_findFirst_def split: option.splits)
qed

lemma entry_delete_entries [simp]:
  "entries (snd (entry_delete i w)) = filter (\<lambda>x. entry_id x \<noteq> i) (entries w)"
proof (cases "find (\<lambda>e. entry_id e = i) (entries w)")
  case None
  then have "\<forall>x \<in> set (entries w). entry_id x \<noteq> i" by (simp add: find_None_iff)
  then have "filter (\<lambda>x. entry_id x \<noteq> i) (entries w) = entries w" by (simp add: filter_id_conv)
  with None show ?thesis by (simp add: entry_delete_def)
next
  case (Some e)
  then show ?thesis by (simp add: entry_delete_def)
qed

lemma delete_entry_permanent_inv:
  assumes "store_inv (entries w)"
  shows "store_inv (entries (snd (delete_entry_permanent uid i w)))"
proof -
  have "store_inv (filter (\<lambda>x. entry_id x \<noteq> i) (entries w))"
    using assms by (rule store_inv_filter)
  with assms show ?thesis
    by (simp add: delete_entry_permanent_def entry_findFirst_def case_prod_beta
        split: option.splits)
qed

lemma entry_create_inv:
  assumes "store_inv (entries w)" "share_inv (new_row nid d)"
    and "publicShareId (new_row nid d) = None
         \<or> (\<forall>y \<in> set (entries w). publicShareId y \<noteq> publicShareId (new_row nid d))"
  shows "store_inv (entries (snd (entry_create nid d w)))"
proof (cases "nid \<in> set (map entry_id (entries w))")
  case True
  with assms(1) show ?thesis by (simp add: entry_create_def)
next
  case False
  have "entry_id (new_row nid d) = nid" by (simp add: new_row_def)
  with False assms have "store_inv (entries w @ [new_row nid d])"
    by (intro store_inv_append) simp_all
  with False show ?thesis by (simp add: entry_create_def)
qed

lemma share_inv_new_row:
  "share_inv (new_row nid d) \<longleftrightarrow>
     (nw_isPublic d \<longleftrightarrow> (\<exists>t. nw_publicShareId d = Some (Some t)))"
  by (cases "nw_publicShareId d")
     (auto simp: share_inv_def new_row_def nullish_def)

lemma token_new_row: "publicShareId (new_row nid d) = nullish (nw_publicShareId d) None"
  by (simp add: new_row_def)

lemma create_entry_inv:
  assumes "store_inv (entries w)"
  shows "store_inv (entries (snd (create_entry uid b nid w)))"
proof (cases "truthy_bool (cr_isPublic b)")
  case False
  then have "\<not> nullish (cr_isPublic b) False"
    by (cases "cr_isPublic b") (simp_all add: truthy_bool_def nullish_def)
  with False assms show ?thesis
    by (simp add: create_entry_def category_findUnique_def case_prod_beta)
       (intro impI entry_create_inv; simp add: share_inv_new_row token_new_row nullish_def)
next
  case True
  then have p: "nullish (cr_isPublic b) False"
    by (cases "cr_isPublic b") (simp_all add: truthy_bool_def nullish_def)
  show ?thesis
  proof (cases "fst (generateUniqueShareId w)")
    case (Inl e)
    with True assms show ?thesis
      by (simp add: create_entry_def category_findUnique_def case_prod_beta)
  next
    case (Inr t)
    then have fresh: "\<forall>y \<in> set (entries w). publicShareId y \<noteq> Some t" by (rule gen_Inr_fresh)
    show ?thesis
      using True Inr assms p
      by (simp add: create_entry_def category_findUnique_def case_prod_beta)
         (intro impI entry_create_inv; simp add: fresh share_inv_new_row token_new_row nullish_def)
  qed
qed


lemma generate_note_inv:
  assumes "store_inv (entries w)"
  shows "store_inv (entries (snd (generate_note user b ai nid w)))"
proof (cases "truthy_bool (g_isPublic b)")
  case False
  then have "\<not> nullish (g_isPublic b) False"
    by (cases "g_isPublic b") (simp_all add: truthy_bool_def nullish_def)
  with False assms show ?thesis
    by (simp add: generate_note_def case_prod_beta Let_def split: option.split sum.split)
       (intro allI impI conjI entry_create_inv; simp add: share_inv_new_row token_new_row nullish_def)
next
  case True
  then have p: "nullish (g_isPublic b) False"
    by (cases "g_isPublic b") (simp_all add: truthy_bool_def nullish_def)
  show ?thesis
  proof (cases "fst (generateUniqueShareId w)")
    case (Inl e)
    with True assms show ?thesis
      by (simp add: generate_note_def case_prod_beta Let_def split: option.split sum.split)
  next
    case (Inr t)
    then have fresh: "\<forall>y \<in> set (entries w). publicShareId y \<noteq> Some t" by (rule gen_Inr_fresh)
    show ?thesis
      using True Inr assms p
      by (simp add: generate_note_def case_prod_beta Let_def split: option.split sum.split)
         (intro allI impI conjI entry_create_inv;
          simp add: fresh share_inv_new_row token_new_row nullish_def)
  qed
qed

lemma reads_entries [simp]:
  "entries (snd (get_public_entry i w)) = entries w"
  "entries (snd (get_entry uid i w)) = entries w"
  by (auto simp: get_public_entry_def get_entry_def entry_findUnique_id_def entry_findFirst_def
      split: option.splits)

lemma handle_inv: "store_inv (entries w) \<Longrightarrow> store_inv (entries (snd (handle rq w)))"
  by (cases rq)
     (simp_all add: create_entry_inv update_entry_inv restore_entry_inv delete_entry_inv
        delete_entry_permanent_inv generate_note_inv update_note_inv)

lemma run_inv: "store_inv (entries w) \<Longrightarrow> store_inv (entries (run rs w))"
  by (induction rs arbitrary: w) (simp_all add: handle_inv)

lemma initial_inv: "store_inv (entries (initial cats r))"
  by (simp add: initial_def store_inv_def tokens_unique_def)

lemma reachable_inv: "store_inv (entries (run rs (initial cats r)))"
  using initial_inv by (rule run_inv)









text \<open>
  Claim C6. In every store reached from the empty store by any sequence of requests served
  one after the other, identifiers are distinct and no two entries with different
  identifiers hold the same non-null \<open>publicShareId\<close>.
\<close>

theorem bound_tokens_unique:
  "distinct (map entry_id (entries (run rs (initial cats r))))
   \<and> tokens_unique (entries (run rs (initial cats r)))"
  using reachable_inv [of rs cats r] by (simp add: store_inv_def)

theorem bound_tokens_unique_witness:
  "distinct (map entry_id (entries (run demo_requests (initial [''c1''] count_rng))))
   \<and> tokens_unique (entries (run demo_requests (initial [''c1''] count_rng)))
   \<and> map publicShareId (entries (run demo_requests (initial [''c1''] count_rng)))
       = [Some ''1011121314151617'', Some ''08090a0b0c0d0e0f'']"
proof -
  have "map publicShareId (entries (run demo_requests (initial [''c1''] count_rng)))
       = [Some ''1011121314151617'', Some ''08090a0b0c0d0e0f'']"
    by code_simp
  then show ?thesis
    using bound_tokens_unique [of demo_requests "[''c1'']" count_rng] by simp
qed

end
